theory Spec2Isabelle
  imports Main
begin

section \<open>Strings, as the source's string primitives use them\<close>

text \<open>
  A source string is a \<^typ>\<open>string\<close>; one \<^typ>\<open>char\<close> stands for one code unit, so the
  model covers the code units below 256. Within that range the white space of the
  regular-expression class \<^verbatim>\<open>\s\<close> and of \<^verbatim>\<open>String.prototype.trim\<close> is TAB, LF, VT, FF, CR,
  SPACE and NBSP, and a word character of \<^verbatim>\<open>\b\<close> is one of \<^verbatim>\<open>[A-Za-z0-9_]\<close>.
\<close>

definition is_space :: "char \<Rightarrow> bool" where
  "is_space c =
     (c \<in> set [CHR 0x09, CHR 0x0A, CHR 0x0B, CHR 0x0C, CHR 0x0D, CHR 0x20, CHR 0xA0])"

definition is_word :: "char \<Rightarrow> bool" where
  "is_word c =
     (let n = (of_char c :: nat) in
        (48 \<le> n \<and> n \<le> 57) \<or> (65 \<le> n \<and> n \<le> 90) \<or> n = 95 \<or> (97 \<le> n \<and> n \<le> 122))"

text \<open>\<^verbatim>\<open>Array.prototype.join(sep)\<close> on an array of strings.\<close>

fun join :: "string \<Rightarrow> string list \<Rightarrow> string" where
  "join sep [] = []"
| "join sep [x] = x"
| "join sep (x # y # ys) = x @ sep @ join sep (y # ys)"

text \<open>\<^verbatim>\<open>String.prototype.trim\<close>: white space is dropped at both ends.\<close>

definition trim :: "string \<Rightarrow> string" where
  "trim s = rev (dropWhile is_space (rev (dropWhile is_space s)))"

text \<open>
  \<^verbatim>\<open>s.slice(0, e)\<close> for an integer \<open>e\<close>: a negative end counts from the end of the string,
  and both bounds are clamped to the string.
\<close>

definition slice0 :: "string \<Rightarrow> int \<Rightarrow> string" where
  "slice0 s e = (if e < 0 then take (nat (int (length s) + e)) s else take (nat e) s)"

text \<open>
  The decimal rendering of an integer inside a template literal (the plain digits the
  source prints for every integer of magnitude below \<open>10\<^sup>2\<^sup>1\<close>).
\<close>

definition digit_char :: "nat \<Rightarrow> char" where
  "digit_char d = ''0123456789'' ! (d mod 10)"

fun digits :: "nat \<Rightarrow> string" where
  "digits n = (if n < 10 then [digit_char n] else digits (n div 10) @ [digit_char (n mod 10)])"

definition show_int :: "int \<Rightarrow> string" where
  "show_int i = (if i < 0 then CHR ''-'' # digits (nat (- i)) else digits (nat i))"

section \<open>Regular expressions of the blocked-pattern list\<close>

text \<open>
  The constructs the thirteen patterns of \<^verbatim>\<open>BLOCKED_PATTERNS\<close> are written with: a literal
  character, a character class, a starred character class (\<^verbatim>\<open>\s*\<close>), the word boundary
  \<^verbatim>\<open>\b\<close>, concatenation and alternation.
\<close>

datatype rx =
    Eps
  | Ch char
  | Cls "char \<Rightarrow> bool"
  | Many "char \<Rightarrow> bool"
  | WordB
  | Cat rx rx
  | Or rx rx

fun word_at :: "char option \<Rightarrow> bool" where
  "word_at None = False"
| "word_at (Some c) = is_word c"

fun peek :: "string \<Rightarrow> char option" where
  "peek [] = None"
| "peek (x # xs) = Some x"

text \<open>
  \<open>ends r p s\<close> lists every way \<open>r\<close> can match a prefix of \<open>s\<close>, where \<open>p\<close> is the
  character just before \<open>s\<close> (none at the start of the input): each result is the last
  character before the rest, and the rest.
\<close>

fun ends :: "rx \<Rightarrow> char option \<Rightarrow> string \<Rightarrow> (char option \<times> string) list" where
  "ends Eps p s = [(p, s)]"
| "ends (Ch c) p [] = []"
| "ends (Ch c) p (x # xs) = (if x = c then [(Some x, xs)] else [])"
| "ends (Cls f) p [] = []"
| "ends (Cls f) p (x # xs) = (if f x then [(Some x, xs)] else [])"
| "ends (Many f) p [] = [(p, [])]"
| "ends (Many f) p (x # xs) =
     (if f x then ends (Many f) (Some x) xs else []) @ [(p, x # xs)]"
| "ends WordB p s = (if word_at p \<noteq> word_at (peek s) then [(p, s)] else [])"
| "ends (Cat a b) p s = concat (map (\<lambda>(q, t). ends b q t) (ends a p s))"
| "ends (Or a b) p s = ends a p s @ ends b p s"

text \<open>An unanchored pattern is tried at every position of the input, left to right.\<close>

fun search :: "rx \<Rightarrow> char option \<Rightarrow> string \<Rightarrow> bool" where
  "search r p [] = (ends r p [] \<noteq> [])"
| "search r p (x # xs) = (if ends r p (x # xs) \<noteq> [] then True else search r (Some x) xs)"

text \<open>\<^verbatim>\<open>RegExp.prototype.test\<close> of a pattern without flags.\<close>

definition test :: "rx \<Rightarrow> string \<Rightarrow> bool" where
  "test r s = search r None s"

fun lit :: "string \<Rightarrow> rx" where
  "lit [] = Eps"
| "lit (c # cs) = Cat (Ch c) (lit cs)"

section \<open>Command sandbox (safe-exec.ts)\<close>

definition ALLOWED_COMMANDS :: "string list" where
  "ALLOWED_COMMANDS =
     [''ps'', ''pgrep'', ''pidof'',
      ''free'', ''df'', ''du'', ''lsblk'', ''lscpu'', ''lsmem'',
      ''ss'', ''ip'',
      ''systemctl'', ''journalctl'',
      ''ls'', ''cat'', ''head'', ''tail'', ''wc'', ''file'', ''stat'', ''find'', ''realpath'',
      ''uptime'', ''hostname'', ''uname'', ''who'', ''w'', ''last'', ''date'',
      ''nix'', ''nix-store'', ''nixos-option'', ''nixos-version'', ''nixos-rebuild'',
      ''git'',
      ''sensors'', ''lsusb'', ''lspci'']"

definition shell_meta :: "char \<Rightarrow> bool" where
  "shell_meta c = (c \<in> set [CHR '';'', CHR ''&'', CHR ''|'', CHR 0x60])"

definition non_space :: "char \<Rightarrow> bool" where
  "non_space c = (\<not> is_space c)"

text \<open>The pattern \<^verbatim>\<open>/nixos-rebuild\s+(switch|boot|test)/\<close>.\<close>

definition rebuild_pattern :: rx where
  "rebuild_pattern =
     Cat (lit ''nixos-rebuild'')
       (Cat (Cat (Cls is_space) (Many is_space))
          (Or (lit ''switch'') (Or (lit ''boot'') (lit ''test''))))"

definition BLOCKED_PATTERNS :: "rx list" where
  "BLOCKED_PATTERNS =
     [Cls shell_meta,
      lit ''$('', lit ''${'',
      Cat (Ch CHR ''>'') (Cat (Many is_space) (Cls non_space)),
      lit ''--delete'', lit ''--force'', Cat (lit ''-rf'') WordB,
      lit ''--hard'', lit ''--no-verify'',
      Cat (lit ''-exec'') WordB,
      rebuild_pattern,
      lit ''nix-collect-garbage'',
      Cat WordB (Cat (lit ''push'') WordB)]"

text \<open>
  The loop over \<^verbatim>\<open>BLOCKED_PATTERNS\<close>: it leaves with \<open>False\<close> at the first pattern that
  matches, and falls through to \<open>True\<close>.
\<close>

fun scan_patterns :: "rx list \<Rightarrow> string \<Rightarrow> bool" where
  "scan_patterns [] fullArgs = True"
| "scan_patterns (pattern # rest) fullArgs =
     (if test pattern fullArgs then False else scan_patterns rest fullArgs)"

definition isCommandAllowed :: "string \<Rightarrow> string list \<Rightarrow> bool" where
  "isCommandAllowed command args =
     (if \<not> (command \<in> set ALLOWED_COMMANDS) then False
      else let fullArgs = join '' '' args in scan_patterns BLOCKED_PATTERNS fullArgs)"

record SafeExecOptions =
  maxBytes :: "int option"
  timeout :: "int option"
  cwd :: "string option"

text \<open>
  One call of \<^verbatim>\<open>execFile\<close>, and what the promisified call settles with: it fulfils with
  the two captured streams, or rejects with an error object that has a message and may
  carry the streams captured so far (non-zero exit, spawn failure, timeout).
\<close>

record spawn_call =
  sp_command :: string
  sp_args :: "string list"
  sp_timeout :: int
  sp_cwd :: "string option"

datatype exec_result =
    Fulfilled string string
  | Failed string "string option" "string option"

text \<open>The promise an \<^verbatim>\<open>async\<close> function returns, once settled.\<close>

datatype 'a promise = Resolved 'a | Rejected string

definition blocked_message :: "string \<Rightarrow> string list \<Rightarrow> string" where
  "blocked_message command args =
     ''BLOCKED: Command '' @ [CHR 0x22] @ command @ '' '' @ join '' '' args @ [CHR 0x22]
       @ '' is not permitted.''"

definition truncation_notice :: "int \<Rightarrow> string" where
  "truncation_notice n = [CHR 0x0A] @ ''... (truncated at '' @ show_int n @ '' bytes)''"

fun or_empty :: "string option \<Rightarrow> string" where
  "or_empty None = []"
| "or_empty (Some s) = s"

text \<open>
  \<open>safeExec\<close> takes the operating system as a function from the call of \<^verbatim>\<open>execFile\<close> to
  its outcome, and returns the settled promise together with the calls it has made, each
  of which spawns one subprocess. The options \<^verbatim>\<open>maxBytes\<close> and \<^verbatim>\<open>timeout\<close> are integers;
  one that is not given takes its default. The only \<^verbatim>\<open>await\<close> stands inside the
  \<^verbatim>\<open>try\<close> block and the \<^verbatim>\<open>catch\<close> block builds a string, so every path resolves.
\<close>

definition safeExec ::
  "(spawn_call \<Rightarrow> exec_result) \<Rightarrow> string \<Rightarrow> string list \<Rightarrow> SafeExecOptions
    \<Rightarrow> string promise \<times> spawn_call list" where
  "safeExec exec command args options =
     (let maxB = (case maxBytes options of None \<Rightarrow> 10240 | Some n \<Rightarrow> n);
          tmo = (case timeout options of None \<Rightarrow> 30000 | Some n \<Rightarrow> n);
          call = \<lparr>sp_command = command, sp_args = args, sp_timeout = tmo,
                  sp_cwd = cwd options\<rparr>
      in if \<not> isCommandAllowed command args
         then (Resolved (blocked_message command args), [])
         else (case exec call of
                 Fulfilled stdout stderr \<Rightarrow>
                   (let output = stdout @ (if stderr \<noteq> [] then [CHR 0x0A] @ ''STDERR: '' @ stderr
                                           else []);
                        output' = (if int (length output) > maxB
                                   then slice0 output maxB @ truncation_notice maxB
                                   else output)
                    in (Resolved output', [call]))
               | Failed message out err \<Rightarrow>
                   (Resolved (trim (''Error: '' @ message @ [CHR 0x0A] @ or_empty out
                                     @ [CHR 0x0A] @ or_empty err)),
                    [call])))"

section \<open>Policy engine (tool-policy.ts)\<close>

datatype PolicyDecision = Allow | Deny | Approve

record ToolPolicy =
  tool :: string
  effect :: PolicyDecision
  channels :: "string list option"
  users :: "string list option"

text \<open>
  The loop of \<open>evaluatePolicy\<close>: each of the three tests skips to the next policy
  (\<^verbatim>\<open>continue\<close>), the first policy that passes all three returns its effect, and the
  loop falls through to \<^verbatim>\<open>"allow"\<close>. An optional field that is not set is falsy, so
  its test does not skip; a field that is set, even to the empty array, is tested.
\<close>

fun evaluatePolicy :: "ToolPolicy list \<Rightarrow> string \<Rightarrow> string \<Rightarrow> string \<Rightarrow> PolicyDecision" where
  "evaluatePolicy [] toolName channel sender = Allow"
| "evaluatePolicy (policy # rest) toolName channel sender =
     (if tool policy \<noteq> ''*'' \<and> tool policy \<noteq> toolName
        then evaluatePolicy rest toolName channel sender
      else if (case channels policy of None \<Rightarrow> False | Some cs \<Rightarrow> \<not> (channel \<in> set cs))
        then evaluatePolicy rest toolName channel sender
      else if (case users policy of None \<Rightarrow> False | Some us \<Rightarrow> \<not> (sender \<in> set us))
        then evaluatePolicy rest toolName channel sender
      else effect policy)"

text \<open>
  When a rule matches, in the words of the specification: its tool field is the wildcard
  or the tool name, it has no channel set or the channel is in it, and it has no user set
  or the sender is in it.
\<close>

definition rule_matches :: "ToolPolicy \<Rightarrow> string \<Rightarrow> string \<Rightarrow> string \<Rightarrow> bool" where
  "rule_matches r toolName channel sender =
     ((tool r = ''*'' \<or> tool r = toolName)
      \<and> (case channels r of None \<Rightarrow> True | Some cs \<Rightarrow> channel \<in> set cs)
      \<and> (case users r of None \<Rightarrow> True | Some us \<Rightarrow> sender \<in> set us))"

section \<open>Approval store (approval.ts)\<close>

datatype Status = Pending | StatusAllow | StatusDeny | Expired

datatype Decision = DecideAllow | DecideDeny

text \<open>The assignment \<^verbatim>\<open>req.status = decision\<close> stores the decision's own string.\<close>

fun status_of :: "Decision \<Rightarrow> Status" where
  "status_of DecideAllow = StatusAllow"
| "status_of DecideDeny = StatusDeny"

text \<open>
  The interface \<^verbatim>\<open>ApprovalRequest\<close>; its fields \<^verbatim>\<open>id\<close>, \<^verbatim>\<open>tool\<close> and \<^verbatim>\<open>input\<close> are
  written \<open>req_id\<close>, \<open>req_tool\<close> and \<open>req_input\<close> here. \<open>ApprovalArgs\<close> is the argument
  of \<open>requestApproval\<close>, the request without \<^verbatim>\<open>id\<close>, \<^verbatim>\<open>status\<close> and \<^verbatim>\<open>createdAt\<close>.
\<close>

record ApprovalRequest =
  req_id :: string
  req_tool :: string
  req_input :: string
  session :: string
  requester :: string
  status :: Status
  createdAt :: int

record ApprovalArgs =
  arg_tool :: string
  arg_input :: string
  arg_session :: string
  arg_requester :: string

text \<open>
  The values the approval store keeps in the state store: a request under its id, and the
  array of ids under the key \<^verbatim>\<open>_pending_index\<close> of the same namespace.
\<close>

datatype json = JApproval ApprovalRequest | JIndex "string list"

type_synonym StateStore = "string \<times> string \<Rightarrow> json option"

text \<open>
  Modelled from the spec: the class \<^verbatim>\<open>StateStore\<close> (state.ts) is not among the sources.
  The specification gives its contract: a namespaced key-value interface,
  \<^verbatim>\<open>set(namespace, key, value)\<close> and \<^verbatim>\<open>get(namespace, key) -> value | absent\<close>. Every read
  yields a value of its own, so changing a value that was read changes the store only
  when it is written back.
\<close>

definition getJSON :: "StateStore \<Rightarrow> string \<Rightarrow> string \<Rightarrow> json option" where
  "getJSON state ns key = state (ns, key)"

definition setJSON :: "StateStore \<Rightarrow> string \<Rightarrow> string \<Rightarrow> json \<Rightarrow> StateStore" where
  "setJSON state ns key v = state((ns, key) \<mapsto> v)"

definition NAMESPACE :: string where
  "NAMESPACE = ''approvals''"

text \<open>
  The source reads the index as \<^verbatim>\<open>getJSON<string[]>(...) ?? []\<close> and then calls an array
  method on it or iterates it. An absent value reads as the empty array; a stored value
  that is not an array makes that next step throw a \<^verbatim>\<open>TypeError\<close>.
\<close>

datatype error = TypeError

fun read_index :: "json option \<Rightarrow> error + string list" where
  "read_index None = Inr []"
| "read_index (Some (JIndex ids)) = Inr ids"
| "read_index (Some (JApproval r)) = Inl TypeError"

text \<open>
  \<open>requestApproval\<close> takes the value \<^verbatim>\<open>randomUUID()\<close> draws and the value of
  \<^verbatim>\<open>Date.now()\<close> as arguments. Every operation returns its result, or the error it
  throws, together with the state store as it leaves it.
\<close>

definition requestApproval ::
  "StateStore \<Rightarrow> ApprovalArgs \<Rightarrow> string \<Rightarrow> int \<Rightarrow> (error + string) \<times> StateStore" where
  "requestApproval state req uuid now =
     (let id' = take 8 uuid;
          approval = \<lparr>req_id = id', req_tool = arg_tool req, req_input = arg_input req,
                      session = arg_session req, requester = arg_requester req,
                      status = Pending, createdAt = now\<rparr>;
          state1 = setJSON state NAMESPACE id' (JApproval approval)
      in case read_index (getJSON state1 NAMESPACE ''_pending_index'') of
           Inl e \<Rightarrow> (Inl e, state1)
         | Inr index \<Rightarrow>
             (Inr id', setJSON state1 NAMESPACE ''_pending_index'' (JIndex (index @ [id']))))"

definition get :: "StateStore \<Rightarrow> string \<Rightarrow> json option" where
  "get state id' = getJSON state NAMESPACE id'"

definition removeFromPendingIndex :: "StateStore \<Rightarrow> string \<Rightarrow> (error + unit) \<times> StateStore" where
  "removeFromPendingIndex state id' =
     (case read_index (getJSON state NAMESPACE ''_pending_index'') of
        Inl e \<Rightarrow> (Inl e, state)
      | Inr index \<Rightarrow>
          (Inr (), setJSON state NAMESPACE ''_pending_index''
                     (JIndex (filter (\<lambda>i. i \<noteq> id') index))))"

text \<open>
  \<open>decide\<close> returns at once when nothing is stored under the id, and when the stored
  value's \<^verbatim>\<open>status\<close> is not \<^verbatim>\<open>"pending"\<close> (an array has no such field).
\<close>

definition decide :: "StateStore \<Rightarrow> string \<Rightarrow> Decision \<Rightarrow> (error + unit) \<times> StateStore" where
  "decide state id' decision =
     (case get state id' of
        None \<Rightarrow> (Inr (), state)
      | Some (JIndex ids) \<Rightarrow> (Inr (), state)
      | Some (JApproval req) \<Rightarrow>
          if status req \<noteq> Pending then (Inr (), state)
          else let req' = req\<lparr>status := status_of decision\<rparr>;
                   state1 = setJSON state NAMESPACE id' (JApproval req')
               in removeFromPendingIndex state1 id')"

definition listPending :: "StateStore \<Rightarrow> error + ApprovalRequest list" where
  "listPending state =
     (case read_index (getJSON state NAMESPACE ''_pending_index'') of
        Inl e \<Rightarrow> Inl e
      | Inr index \<Rightarrow>
          Inr [r. Some (JApproval r) \<leftarrow> map (get state) index, status r = Pending])"

text \<open>
  The loop of \<open>expireOlderThan\<close> over the index it has read: the state store and the
  array \<^verbatim>\<open>expiredIds\<close> are carried along.
\<close>

fun expire_loop ::
  "string list \<Rightarrow> int \<Rightarrow> int \<Rightarrow> StateStore \<times> string list \<Rightarrow> StateStore \<times> string list" where
  "expire_loop [] maxAgeMs now (state, expiredIds) = (state, expiredIds)"
| "expire_loop (id' # ids) maxAgeMs now (state, expiredIds) =
     (case get state id' of
        Some (JApproval req) \<Rightarrow>
          if status req = Pending \<and> now - createdAt req \<ge> maxAgeMs
          then expire_loop ids maxAgeMs now
                 (setJSON state NAMESPACE id' (JApproval (req\<lparr>status := Expired\<rparr>)),
                  expiredIds @ [id'])
          else expire_loop ids maxAgeMs now (state, expiredIds)
      | _ \<Rightarrow> expire_loop ids maxAgeMs now (state, expiredIds))"

definition expireOlderThan :: "StateStore \<Rightarrow> int \<Rightarrow> int \<Rightarrow> (error + unit) \<times> StateStore" where
  "expireOlderThan state maxAgeMs now =
     (case read_index (getJSON state NAMESPACE ''_pending_index'') of
        Inl e \<Rightarrow> (Inl e, state)
      | Inr index \<Rightarrow>
          (case expire_loop index maxAgeMs now (state, []) of
             (state1, expiredIds) \<Rightarrow>
               if length expiredIds > 0
               then (Inr (), setJSON state1 NAMESPACE ''_pending_index''
                               (JIndex (filter (\<lambda>id'. \<not> (id' \<in> set expiredIds)) index)))
               else (Inr (), state1)))"

subsection \<open>Sequences of operations\<close>

datatype op =
    Request ApprovalArgs string int
  | Decide string Decision
  | ExpireOlderThan int int

text \<open>
  One operation on the store; the ids that \<open>requestApproval\<close> has returned so far are
  collected beside the state store.
\<close>

fun step :: "StateStore \<times> string list \<Rightarrow> op \<Rightarrow> StateStore \<times> string list" where
  "step (state, ids) (Request req uuid now) =
     (case requestApproval state req uuid now of
        (Inr id', state') \<Rightarrow> (state', ids @ [id'])
      | (Inl e, state') \<Rightarrow> (state', ids))"
| "step (state, ids) (Decide id' decision) = (snd (decide state id' decision), ids)"
| "step (state, ids) (ExpireOlderThan maxAgeMs now) =
     (snd (expireOlderThan state maxAgeMs now), ids)"

definition run :: "op list \<Rightarrow> StateStore \<times> string list" where
  "run ops = foldl step (Map.empty, []) ops"

definition store_after :: "op list \<Rightarrow> StateStore" where
  "store_after ops = fst (run ops)"

definition returned_ids :: "op list \<Rightarrow> string list" where
  "returned_ids ops = snd (run ops)"

text \<open>The pending index as stored, the empty list when none is.\<close>

definition pending_index :: "StateStore \<Rightarrow> string list" where
  "pending_index state =
     (case getJSON state NAMESPACE ''_pending_index'' of Some (JIndex ids) \<Rightarrow> ids | _ \<Rightarrow> [])"

text \<open>The value under the index key is an array, or absent.\<close>

definition index_ok :: "StateStore \<Rightarrow> bool" where
  "index_ok state =
     (case getJSON state NAMESPACE ''_pending_index'' of Some (JApproval r) \<Rightarrow> False | _ \<Rightarrow> True)"

text \<open>The record stored under an id has status \<^verbatim>\<open>"pending"\<close>.\<close>

definition is_pending :: "StateStore \<Rightarrow> string \<Rightarrow> bool" where
  "is_pending state id' =
     (case get state id' of Some (JApproval r) \<Rightarrow> status r = Pending | _ \<Rightarrow> False)"

text \<open>
  What the specification asks of an id for \<open>expireOlderThan\<close> to expire it: its record
  exists, has status \<^verbatim>\<open>"pending"\<close>, and \<open>now - createdAt \<ge> maxAgeMs\<close>. \<open>mark_expired\<close> is
  the stored record with its status set to \<^verbatim>\<open>"expired"\<close>.
\<close>

definition expirable :: "StateStore \<Rightarrow> int \<Rightarrow> int \<Rightarrow> string \<Rightarrow> bool" where
  "expirable state maxAgeMs now id' =
     (case get state id' of
        Some (JApproval r) \<Rightarrow> status r = Pending \<and> now - createdAt r \<ge> maxAgeMs
      | _ \<Rightarrow> False)"

fun mark_expired :: "json option \<Rightarrow> json option" where
  "mark_expired (Some (JApproval r)) = Some (JApproval (r\<lparr>status := Expired\<rparr>))"
| "mark_expired v = v"

text \<open>
  The invariant of the store beside the ids returned so far: the value under the index
  key is an array or absent; an id is in the pending index exactly when its record is
  pending; every key in use is in the approvals namespace, and is the index key or a
  returned id; the index key is not a returned id.
\<close>

definition store_inv :: "StateStore \<Rightarrow> string list \<Rightarrow> bool" where
  "store_inv state ids =
     (index_ok state
      \<and> (\<forall>i. (i \<in> set (pending_index state)) = is_pending state i)
      \<and> (\<forall>ns k. state (ns, k) \<noteq> None \<longrightarrow>
            ns = NAMESPACE \<and> (k = ''_pending_index'' \<or> k \<in> set ids))
      \<and> ''_pending_index'' \<notin> set ids)"

section \<open>HTTP routes (channels/webui/routes.ts)\<close>

datatype http_method = GET | POST

datatype handler = Health | Chat | Stream | Dashboard

text \<open>
  The routes \<open>registerRoutes\<close> registers, in order. None has a parameter, so a request is
  served by the route whose method and path are those of the request, and by none
  otherwise.
\<close>

definition registerRoutes :: "(http_method \<times> string \<times> handler) list" where
  "registerRoutes =
     [(GET, ''/api/health'', Health),
      (POST, ''/api/chat'', Chat),
      (GET, ''/api/stream'', Stream),
      (GET, ''/'', Dashboard)]"

fun find_route :: "(http_method \<times> string \<times> handler) list \<Rightarrow> http_method \<Rightarrow> string \<Rightarrow> handler option" where
  "find_route [] m path = None"
| "find_route ((m', path', h) # routes) m path =
     (if m' = m \<and> path' = path then Some h else find_route routes m path)"

section \<open>Properties of the command sandbox\<close>

lemma scan_patterns_iff:
  "scan_patterns ps s \<longleftrightarrow> \<not> (\<exists>p \<in> set ps. test p s)"
  by (induction ps) auto

lemmas rx_eval = test_def is_word_def is_space_def shell_meta_def non_space_def rebuild_pattern_def

text \<open>The cases of the repository's test file safe-exec.test.ts.\<close>

lemma isCommandAllowed_tests:
  "isCommandAllowed ''ps'' [''aux'']"
  "isCommandAllowed ''free'' [''-h'']"
  "isCommandAllowed ''hostname'' []"
  "\<not> isCommandAllowed ''rm'' [''-rf'', ''/'']"
  "\<not> isCommandAllowed ''dd'' [''if=/dev/zero'']"
  "\<not> isCommandAllowed ''sudo'' [''anything'']"
  "\<not> isCommandAllowed ''ls'' [''; rm -rf /'']"
  "\<not> isCommandAllowed ''cat'' [''$(whoami)'']"
  "\<not> isCommandAllowed ''find'' [''-exec'', ''rm'']"
  by (simp_all add: isCommandAllowed_def ALLOWED_COMMANDS_def BLOCKED_PATTERNS_def rx_eval)

text \<open>
  C1: \<open>isCommandAllowed command args\<close> is true exactly when the command is in the
  allowlist and no blocked pattern matches the arguments joined with a space. So it is
  false for every command outside the allowlist, whatever the arguments, and false for
  an allowlisted command whose joined arguments match some blocked pattern.
\<close>

theorem isCommandAllowed_iff:
  "(isCommandAllowed command args \<longleftrightarrow>
      command \<in> set ALLOWED_COMMANDS
      \<and> \<not> (\<exists>p \<in> set BLOCKED_PATTERNS. test p (join '' '' args)))
   \<and> (command \<notin> set ALLOWED_COMMANDS \<longrightarrow> \<not> isCommandAllowed command args)
   \<and> (command \<in> set ALLOWED_COMMANDS
        \<and> (\<exists>p \<in> set BLOCKED_PATTERNS. test p (join '' '' args))
        \<longrightarrow> \<not> isCommandAllowed command args)"
  by (simp add: isCommandAllowed_def scan_patterns_iff)

theorem isCommandAllowed_iff_witness:
  "isCommandAllowed ''ps'' [''aux'']
   \<and> \<not> isCommandAllowed ''rm'' [''-rf'', ''/'']
   \<and> \<not> isCommandAllowed ''find'' [''-exec'', ''rm'']"
proof -
  have a1: "''ps'' \<in> set ALLOWED_COMMANDS"
    by (simp add: ALLOWED_COMMANDS_def)
  have a2: "\<not> (\<exists>p \<in> set BLOCKED_PATTERNS. test p (join '' '' [''aux'']))"
    by (simp add: BLOCKED_PATTERNS_def rx_eval)
  have b1: "''rm'' \<notin> set ALLOWED_COMMANDS"
    by (simp add: ALLOWED_COMMANDS_def)
  have c1: "''find'' \<in> set ALLOWED_COMMANDS"
    by (simp add: ALLOWED_COMMANDS_def)
  have c2: "\<exists>p \<in> set BLOCKED_PATTERNS. test p (join '' '' [''-exec'', ''rm''])"
    by (simp add: BLOCKED_PATTERNS_def rx_eval)
  from a1 a2 isCommandAllowed_iff [of "''ps''" "[''aux'']"]
  have a: "isCommandAllowed ''ps'' [''aux'']" by blast
  from b1 isCommandAllowed_iff [of "''rm''" "[''-rf'', ''/'']"]
  have b: "\<not> isCommandAllowed ''rm'' [''-rf'', ''/'']" by blast
  from c1 c2 isCommandAllowed_iff [of "''find''" "[''-exec'', ''rm'']"]
  have c: "\<not> isCommandAllowed ''find'' [''-exec'', ''rm'']" by blast
  from a b c show ?thesis by blast
qed

text \<open>
  C2: when \<open>isCommandAllowed command args\<close> is false, \<open>safeExec\<close> resolves (it does not
  reject) with a text that begins with \<^verbatim>\<open>BLOCKED:\<close>, and it has spawned no subprocess.
\<close>

theorem safeExec_blocked:
  "\<not> isCommandAllowed command args \<Longrightarrow>
     safeExec exec command args options = (Resolved (blocked_message command args), [])
     \<and> (\<exists>rest. blocked_message command args = ''BLOCKED:'' @ rest)"
  by (simp add: safeExec_def blocked_message_def Let_def)

theorem safeExec_blocked_witness:
  "\<not> isCommandAllowed ''rm'' [''-rf'', ''/'']
   \<and> safeExec (\<lambda>c. Fulfilled ''gone'' []) ''rm'' [''-rf'', ''/'']
        \<lparr>maxBytes = None, timeout = None, cwd = None\<rparr>
       = (Resolved (''BLOCKED: Command '' @ [CHR 0x22] @ ''rm -rf /'' @ [CHR 0x22]
                     @ '' is not permitted.''), [])"
proof -
  have h: "\<not> isCommandAllowed ''rm'' [''-rf'', ''/'']"
    by (simp add: isCommandAllowed_def ALLOWED_COMMANDS_def)
  have m: "blocked_message ''rm'' [''-rf'', ''/'']
             = ''BLOCKED: Command '' @ [CHR 0x22] @ ''rm -rf /'' @ [CHR 0x22]
                 @ '' is not permitted.''"
    by (simp add: blocked_message_def)
  from safeExec_blocked [OF h, of "\<lambda>c. Fulfilled ''gone'' []"
      "\<lparr>maxBytes = None, timeout = None, cwd = None\<rparr>"] h m
  show ?thesis by simp
qed

text \<open>
  C3: the length bound of \<open>safeExec\<close> (at most \<open>maxBytes\<close> plus the length of the
  truncation notice) fails when the subprocess fails: the text built from the error is
  trimmed, never cut. With \<open>maxBytes = 10\<close>, a failing \<^verbatim>\<open>cat /etc/shadow\<close> returns 112
  characters, where the bound is \<open>10 + 28\<close>.
\<close>

theorem safeExec_failure_unbounded:
  "isCommandAllowed ''cat'' [''/etc/shadow'']
   \<and> (\<exists>text. safeExec
         (\<lambda>c. Failed (''Command failed: cat /etc/shadow'' @ [CHR 0x0A]
                         @ ''cat: /etc/shadow: Permission denied'' @ [CHR 0x0A])
                 (Some []) (Some (''cat: /etc/shadow: Permission denied'' @ [CHR 0x0A])))
         ''cat'' [''/etc/shadow''] \<lparr>maxBytes = Some 10, timeout = None, cwd = None\<rparr>
        = (Resolved text,
           [\<lparr>sp_command = ''cat'', sp_args = [''/etc/shadow''], sp_timeout = 30000,
              sp_cwd = None\<rparr>])
      \<and> length text = 112
      \<and> length (truncation_notice 10) = 28
      \<and> int (length text) > 10 + int (length (truncation_notice 10)))"
  by (simp add: safeExec_def isCommandAllowed_def ALLOWED_COMMANDS_def BLOCKED_PATTERNS_def
      rx_eval trim_def truncation_notice_def show_int_def digit_char_def)

text \<open>On the path where the subprocess succeeds, the bound holds for every \<open>maxBytes \<ge> 0\<close>.\<close>

lemma length_slice0: "0 \<le> m \<Longrightarrow> int (length (slice0 s m)) \<le> m"
  by (simp add: slice0_def)

lemma safeExec_fulfilled_bounded:
  assumes "isCommandAllowed command args"
    and "0 \<le> m"
    and "maxBytes options = Some m"
    and "exec \<lparr>sp_command = command, sp_args = args,
                sp_timeout = (case timeout options of None \<Rightarrow> 30000 | Some n \<Rightarrow> n),
                sp_cwd = cwd options\<rparr> = Fulfilled out err"
    and "fst (safeExec exec command args options) = Resolved text"
  shows "int (length text) \<le> m + int (length (truncation_notice m))"
  using assms length_slice0 [of m]
  by (auto simp: safeExec_def Let_def split: if_splits)


section \<open>Properties of the policy engine\<close>

lemma evaluatePolicy_Cons:
  "evaluatePolicy (p # ps) t c s =
     (if rule_matches p t c s then effect p else evaluatePolicy ps t c s)"
  by (auto simp: rule_matches_def split: option.splits)

lemma evaluatePolicy_find:
  "evaluatePolicy rules t c s =
     (case find (\<lambda>r. rule_matches r t c s) rules of None \<Rightarrow> Allow | Some r \<Rightarrow> effect r)"
  by (induction rules) (simp_all only: evaluatePolicy.simps(1) evaluatePolicy_Cons find.simps
      option.case if_distrib [of "case_option Allow effect"] split: if_splits)

lemma evaluatePolicy_skip:
  "\<forall>q \<in> set pre. \<not> rule_matches q t c s \<Longrightarrow>
     evaluatePolicy (pre @ rest) t c s = evaluatePolicy rest t c s"
  by (induction pre) (simp_all only: append.simps evaluatePolicy_Cons list.set, auto)

text \<open>The cases of the repository's test file tool-policy.test.ts.\<close>

lemma evaluatePolicy_tests:
  "evaluatePolicy [] ''nixclaw_processes'' ''telegram'' ''user1'' = Allow"
  "evaluatePolicy
     [\<lparr>tool = ''nixclaw_query'', effect = Deny, channels = Some [''telegram''], users = None\<rparr>]
     ''nixclaw_query'' ''telegram'' ''user1'' = Deny"
  "evaluatePolicy
     [\<lparr>tool = ''nixclaw_query'', effect = Deny, channels = Some [''telegram''], users = None\<rparr>]
     ''nixclaw_query'' ''webui'' ''user1'' = Allow"
  "evaluatePolicy
     [\<lparr>tool = ''nixclaw_query'', effect = Approve, channels = Some [''telegram''], users = None\<rparr>]
     ''nixclaw_query'' ''telegram'' ''user1'' = Approve"
  "evaluatePolicy
     [\<lparr>tool = ''*'', effect = Deny, channels = Some [''telegram''],
        users = Some [''unknown-user'']\<rparr>]
     ''nixclaw_anything'' ''telegram'' ''unknown-user'' = Deny"
  "evaluatePolicy
     [\<lparr>tool = ''*'', effect = Deny, channels = Some [''telegram''],
        users = Some [''unknown-user'']\<rparr>]
     ''nixclaw_anything'' ''telegram'' ''owner'' = Allow"
  by simp_all

text \<open>
  C4: \<open>evaluatePolicy\<close> returns the effect of the first rule, in list order, that matches
  the tool name, the channel and the sender, and \<open>Allow\<close> when no rule matches; for the
  empty rule list it returns \<open>Allow\<close> for every tool, channel and sender.
\<close>

theorem evaluatePolicy_first_match:
  "evaluatePolicy rules t c s =
     (case find (\<lambda>r. rule_matches r t c s) rules of None \<Rightarrow> Allow | Some r \<Rightarrow> effect r)
   \<and> (\<forall>pre r post.
         rules = pre @ r # post \<and> (\<forall>q \<in> set pre. \<not> rule_matches q t c s)
           \<and> rule_matches r t c s
         \<longrightarrow> evaluatePolicy rules t c s = effect r)
   \<and> ((\<forall>q \<in> set rules. \<not> rule_matches q t c s) \<longrightarrow> evaluatePolicy rules t c s = Allow)
   \<and> evaluatePolicy [] t c s = Allow"
proof (intro conjI allI impI)
  show "evaluatePolicy rules t c s =
     (case find (\<lambda>r. rule_matches r t c s) rules of None \<Rightarrow> Allow | Some r \<Rightarrow> effect r)"
    by (rule evaluatePolicy_find)
next
  fix pre r post
  assume h: "rules = pre @ r # post \<and> (\<forall>q \<in> set pre. \<not> rule_matches q t c s)
           \<and> rule_matches r t c s"
  then have "evaluatePolicy rules t c s = evaluatePolicy (r # post) t c s"
    using evaluatePolicy_skip [of pre t c s "r # post"] by simp
  with h show "evaluatePolicy rules t c s = effect r"
    by (simp only: evaluatePolicy_Cons if_True)
next
  assume "\<forall>q \<in> set rules. \<not> rule_matches q t c s"
  then show "evaluatePolicy rules t c s = Allow"
    using evaluatePolicy_skip [of rules t c s "[]"] by simp
next
  show "evaluatePolicy [] t c s = Allow" by simp
qed

theorem evaluatePolicy_first_match_witness:
  "evaluatePolicy
     [\<lparr>tool = ''X'', effect = Allow, channels = None, users = Some [''A'']\<rparr>,
      \<lparr>tool = ''X'', effect = Deny, channels = None, users = None\<rparr>]
     ''X'' ''terminal'' ''A'' = Allow
   \<and> evaluatePolicy
     [\<lparr>tool = ''X'', effect = Allow, channels = None, users = Some [''A'']\<rparr>,
      \<lparr>tool = ''X'', effect = Deny, channels = None, users = None\<rparr>]
     ''X'' ''terminal'' ''B'' = Deny
   \<and> evaluatePolicy
     [\<lparr>tool = ''X'', effect = Allow, channels = None, users = Some [''A'']\<rparr>,
      \<lparr>tool = ''X'', effect = Deny, channels = None, users = None\<rparr>]
     ''Y'' ''terminal'' ''B'' = Allow"
proof -
  let ?r1 = "\<lparr>tool = ''X'', effect = Allow, channels = None, users = Some [''A'']\<rparr>"
  let ?r2 = "\<lparr>tool = ''X'', effect = Deny, channels = None, users = None\<rparr>"
  have a: "[?r1, ?r2] = [] @ ?r1 # [?r2] \<and> (\<forall>q \<in> set []. \<not> rule_matches q ''X'' ''terminal'' ''A'')
             \<and> rule_matches ?r1 ''X'' ''terminal'' ''A''"
    by (simp add: rule_matches_def)
  have b: "[?r1, ?r2] = [?r1] @ ?r2 # [] \<and> (\<forall>q \<in> set [?r1]. \<not> rule_matches q ''X'' ''terminal'' ''B'')
             \<and> rule_matches ?r2 ''X'' ''terminal'' ''B''"
    by (simp add: rule_matches_def)
  have c: "\<forall>q \<in> set [?r1, ?r2]. \<not> rule_matches q ''Y'' ''terminal'' ''B''"
    by (simp add: rule_matches_def)
  from a evaluatePolicy_first_match [of "[?r1, ?r2]" "''X''" "''terminal''" "''A''"]
  have 1: "evaluatePolicy [?r1, ?r2] ''X'' ''terminal'' ''A'' = effect ?r1" by blast
  from b evaluatePolicy_first_match [of "[?r1, ?r2]" "''X''" "''terminal''" "''B''"]
  have 2: "evaluatePolicy [?r1, ?r2] ''X'' ''terminal'' ''B'' = effect ?r2" by blast
  from c evaluatePolicy_first_match [of "[?r1, ?r2]" "''Y''" "''terminal''" "''B''"]
  have 3: "evaluatePolicy [?r1, ?r2] ''Y'' ''terminal'' ''B'' = Allow" by blast
  from 1 2 3 show ?thesis by simp
qed


section \<open>Properties of the approval store\<close>

lemma take8_not_index_key: "take 8 (uuid :: string) \<noteq> ''_pending_index''"
proof
  assume "take 8 uuid = ''_pending_index''"
  then have "length (take 8 uuid) = length ''_pending_index''" by (rule arg_cong)
  then show False by simp
qed

lemma read_index_ok:
  "index_ok state \<Longrightarrow>
     read_index (getJSON state NAMESPACE ''_pending_index'') = Inr (pending_index state)"
  by (auto simp: index_ok_def pending_index_def split: option.splits json.splits)

lemma index_ok_not_approval:
  "index_ok state \<Longrightarrow> get state id' = Some (JApproval r) \<Longrightarrow> id' \<noteq> ''_pending_index''"
  by (auto simp: index_ok_def get_def)

lemma requestApproval_ok:
  assumes "index_ok state"
  shows "requestApproval state req uuid now =
     (Inr (take 8 uuid),
      state((NAMESPACE, take 8 uuid) \<mapsto>
              JApproval \<lparr>req_id = take 8 uuid, req_tool = arg_tool req,
                         req_input = arg_input req, session = arg_session req,
                         requester = arg_requester req, status = Pending, createdAt = now\<rparr>,
            (NAMESPACE, ''_pending_index'') \<mapsto>
              JIndex (pending_index state @ [take 8 uuid])))"
proof -
  let ?s1 = "setJSON state NAMESPACE (take 8 uuid)
      (JApproval \<lparr>req_id = take 8 uuid, req_tool = arg_tool req,
                         req_input = arg_input req, session = arg_session req,
                         requester = arg_requester req, status = Pending, createdAt = now\<rparr>)"
  have "getJSON ?s1 NAMESPACE ''_pending_index'' = getJSON state NAMESPACE ''_pending_index''"
    using take8_not_index_key [of uuid] by (simp add: getJSON_def setJSON_def)
  then have "read_index (getJSON ?s1 NAMESPACE ''_pending_index'') = Inr (pending_index state)"
    using assms by (simp add: read_index_ok)
  then show ?thesis
    by (simp add: requestApproval_def Let_def setJSON_def)
qed

lemma decide_noop:
  "(\<forall>r. get state id' = Some (JApproval r) \<longrightarrow> status r \<noteq> Pending) \<Longrightarrow>
     decide state id' decision = (Inr (), state)"
  by (auto simp: decide_def split: option.splits json.splits)

lemma decide_pending:
  assumes "get state id' = Some (JApproval r)" and "status r = Pending" and "index_ok state"
  shows "decide state id' decision =
     (Inr (),
      state((NAMESPACE, id') \<mapsto> JApproval (r\<lparr>status := status_of decision\<rparr>),
            (NAMESPACE, ''_pending_index'') \<mapsto>
              JIndex (filter (\<lambda>i. i \<noteq> id') (pending_index state))))"
proof -
  let ?s1 = "setJSON state NAMESPACE id' (JApproval (r\<lparr>status := status_of decision\<rparr>))"
  have ne: "id' \<noteq> ''_pending_index''"
    using assms by (rule_tac index_ok_not_approval)
  then have "getJSON ?s1 NAMESPACE ''_pending_index'' = getJSON state NAMESPACE ''_pending_index''"
    by (simp add: getJSON_def setJSON_def)
  then have "read_index (getJSON ?s1 NAMESPACE ''_pending_index'') = Inr (pending_index state)"
    using assms by (simp add: read_index_ok)
  then show ?thesis
    using assms by (simp add: decide_def removeFromPendingIndex_def Let_def setJSON_def)
qed

lemma expirable_update:
  "expirable (state((NAMESPACE, x) \<mapsto> JApproval (r\<lparr>status := Expired\<rparr>))) m now i
     = (i \<noteq> x \<and> expirable state m now i)"
  by (simp add: expirable_def get_def getJSON_def)

lemma expire_loop_store:
  "fst (expire_loop ids m now (state, acc)) =
     (\<lambda>k. if fst k = NAMESPACE \<and> snd k \<in> set ids \<and> expirable state m now (snd k)
            then mark_expired (state k) else state k)"
proof (induction ids arbitrary: state acc)
  case Nil
  show ?case by simp
next
  case (Cons x ids)
  show ?case
  proof (cases "expirable state m now x")
    case True
    then obtain r where r: "get state x = Some (JApproval r)" "status r = Pending"
      "now - createdAt r \<ge> m"
      by (auto simp: expirable_def split: option.splits json.splits)
    have "fst (expire_loop (x # ids) m now (state, acc)) =
      fst (expire_loop ids m now
             (setJSON state NAMESPACE x (JApproval (r\<lparr>status := Expired\<rparr>)), acc @ [x]))"
      using r by simp
    also have "\<dots> = (\<lambda>k. if fst k = NAMESPACE \<and> snd k \<in> set (x # ids)
                          \<and> expirable state m now (snd k)
                       then mark_expired (state k) else state k)"
      using r True
      by (subst Cons.IH) (auto simp: fun_eq_iff expirable_update setJSON_def get_def getJSON_def)
    finally show ?thesis .
  next
    case False
    then have "expire_loop (x # ids) m now (state, acc) = expire_loop ids m now (state, acc)"
      by (auto simp: expirable_def split: option.splits json.splits)
    then show ?thesis
      using False by (auto simp: Cons.IH fun_eq_iff)
  qed
qed

lemma expirable_setJSON:
  "expirable (setJSON state NAMESPACE x (JApproval (r\<lparr>status := Expired\<rparr>))) m now i
     = (i \<noteq> x \<and> expirable state m now i)"
  by (simp add: setJSON_def expirable_update)

lemma expire_loop_ids:
  "set (snd (expire_loop ids m now (state, acc))) =
     set acc \<union> {i \<in> set ids. expirable state m now i}"
proof (induction ids arbitrary: state acc)
  case Nil
  show ?case by simp
next
  case (Cons x ids)
  show ?case
  proof (cases "expirable state m now x")
    case True
    then obtain r where r: "get state x = Some (JApproval r)" "status r = Pending"
      "now - createdAt r \<ge> m"
      by (auto simp: expirable_def split: option.splits json.splits)
    have "set (snd (expire_loop (x # ids) m now (state, acc))) =
      set (acc @ [x]) \<union> {i \<in> set ids. expirable
         (setJSON state NAMESPACE x (JApproval (r\<lparr>status := Expired\<rparr>))) m now i}"
      using r by (simp add: Cons.IH)
    also have "\<dots> = set acc \<union> {i \<in> set (x # ids). expirable state m now i}"
      using True by (auto simp: expirable_setJSON)
    finally show ?thesis .
  next
    case False
    then have "expire_loop (x # ids) m now (state, acc) = expire_loop ids m now (state, acc)"
      by (auto simp: expirable_def split: option.splits json.splits)
    then show ?thesis
      using False by (auto simp: Cons.IH)
  qed
qed

lemma expireOlderThan_ok:
  assumes "index_ok state"
  shows "expireOlderThan state m now =
     (Inr (),
      (\<lambda>k. if fst k = NAMESPACE \<and> snd k \<in> set (pending_index state)
                 \<and> expirable state m now (snd k)
            then mark_expired (state k)
            else if k = (NAMESPACE, ''_pending_index'')
                 \<and> (\<exists>i \<in> set (pending_index state). expirable state m now i)
            then Some (JIndex (filter (\<lambda>i. \<not> expirable state m now i) (pending_index state)))
            else state k))"
proof -
  obtain s1 ex where l: "expire_loop (pending_index state) m now (state, []) = (s1, ex)"
    by (cases "expire_loop (pending_index state) m now (state, [])")
  have s1: "s1 = (\<lambda>k. if fst k = NAMESPACE \<and> snd k \<in> set (pending_index state)
                 \<and> expirable state m now (snd k)
            then mark_expired (state k) else state k)"
    using expire_loop_store [of "pending_index state" m now state "[]"] l by simp
  have ex: "set ex = {i \<in> set (pending_index state). expirable state m now i}"
    using expire_loop_ids [of "pending_index state" m now state "[]"] l by simp
  have f: "filter (\<lambda>i. \<not> (i \<in> set ex)) (pending_index state)
             = filter (\<lambda>i. \<not> expirable state m now i) (pending_index state)"
    by (rule filter_cong) (auto simp: ex)
  have nk: "\<not> expirable state m now ''_pending_index''"
    using assms by (auto simp: expirable_def index_ok_def get_def split: option.splits json.splits)
  show ?thesis
  proof (cases "\<exists>i \<in> set (pending_index state). expirable state m now i")
    case True
    then have "ex \<noteq> []" using ex by auto
    then have "expireOlderThan state m now =
        (Inr (), s1((NAMESPACE, ''_pending_index'') \<mapsto>
                   JIndex (filter (\<lambda>i. \<not> expirable state m now i) (pending_index state))))"
      using assms l by (simp add: expireOlderThan_def read_index_ok f setJSON_def)
    then show ?thesis
      using True nk by (auto simp: s1 fun_eq_iff)
  next
    case False
    then have "set ex = {}" using ex by auto
    then have "ex = []" by simp
    then have "expireOlderThan state m now = (Inr (), s1)"
      using assms l by (simp add: expireOlderThan_def read_index_ok)
    then show ?thesis
      using False by (auto simp: s1 fun_eq_iff)
  qed
qed

lemma expire_pending_index:
  assumes "index_ok state"
  shows "pending_index (snd (expireOlderThan state m now))
           = filter (\<lambda>i. \<not> expirable state m now i) (pending_index state)"
proof (cases "\<exists>i \<in> set (pending_index state). expirable state m now i")
  case True
  then show ?thesis
    using assms
    by (auto simp: expireOlderThan_ok pending_index_def getJSON_def expirable_def get_def
        index_ok_def split: option.splits json.splits)
next
  case False
  then have "filter (\<lambda>i. \<not> expirable state m now i) (pending_index state) = pending_index state"
    by (simp add: filter_id_conv)
  moreover have "pending_index (snd (expireOlderThan state m now)) = pending_index state"
    using False assms
    by (auto simp: expireOlderThan_ok pending_index_def getJSON_def)
  ultimately show ?thesis by simp
qed

lemma expire_get:
  assumes "index_ok state" and "i \<noteq> ''_pending_index''"
  shows "get (snd (expireOlderThan state m now)) i
           = (if i \<in> set (pending_index state) \<and> expirable state m now i
              then mark_expired (get state i) else get state i)"
  using assms by (simp add: expireOlderThan_ok get_def getJSON_def)

lemma expire_index_key:
  assumes "index_ok state"
  shows "index_ok (snd (expireOlderThan state m now))"
  using assms
  by (auto simp: expireOlderThan_ok index_ok_def getJSON_def expirable_def get_def
      split: option.splits json.splits)

lemma expire_other:
  assumes "index_ok state" and "ns \<noteq> NAMESPACE"
  shows "snd (expireOlderThan state m now) (ns, k) = state (ns, k)"
  using assms by (simp add: expireOlderThan_ok)

lemma expire_dom:
  assumes "index_ok state" and "snd (expireOlderThan state m now) (ns, k) \<noteq> None"
  shows "state (ns, k) \<noteq> None \<or> (ns = NAMESPACE \<and> k = ''_pending_index'')"
  using assms
  by (auto simp: expireOlderThan_ok expirable_def get_def getJSON_def
      split: if_splits option.splits json.splits)

lemma is_pending_mark_expired:
  "is_pending state i \<Longrightarrow> expirable state m now i \<Longrightarrow> get state' i = mark_expired (get state i)
     \<Longrightarrow> \<not> is_pending state' i"
  by (auto simp: is_pending_def expirable_def split: option.splits json.splits)

lemma expirable_is_pending: "expirable state m now i \<Longrightarrow> is_pending state i"
  by (auto simp: is_pending_def expirable_def split: option.splits json.splits)

lemma index_key_not_pending: "index_ok state \<Longrightarrow> \<not> is_pending state ''_pending_index''"
  by (auto simp: is_pending_def index_ok_def get_def split: option.splits json.splits)

lemma inv_empty: "store_inv Map.empty []"
  by (simp add: store_inv_def index_ok_def pending_index_def is_pending_def get_def getJSON_def)

lemma upd_index_ok:
  "index_ok (state((NAMESPACE, a) \<mapsto> v, (NAMESPACE, ''_pending_index'') \<mapsto> JIndex xs))"
  by (simp add: index_ok_def getJSON_def)

lemma upd_pending_index:
  "pending_index (state((NAMESPACE, a) \<mapsto> v, (NAMESPACE, ''_pending_index'') \<mapsto> JIndex xs)) = xs"
  by (simp add: pending_index_def getJSON_def)

lemma upd_is_pending:
  "a \<noteq> ''_pending_index'' \<Longrightarrow>
   is_pending (state((NAMESPACE, a) \<mapsto> JApproval r,
                     (NAMESPACE, ''_pending_index'') \<mapsto> JIndex xs)) i
     = (if i = ''_pending_index'' then False
        else if i = a then status r = Pending else is_pending state i)"
  by (simp add: is_pending_def get_def getJSON_def)

lemma upd_dom:
  "(state((NAMESPACE, a) \<mapsto> v, (NAMESPACE, ''_pending_index'') \<mapsto> w)) (ns, k) \<noteq> None \<Longrightarrow>
     state (ns, k) \<noteq> None \<or> (ns = NAMESPACE \<and> (k = a \<or> k = ''_pending_index''))"
  by (simp split: if_splits)

lemma inv_request:
  assumes "store_inv state ids"
  shows "store_inv (snd (requestApproval state req uuid now)) (ids @ [take 8 uuid])"
proof -
  have ok: "index_ok state" using assms by (simp add: store_inv_def)
  have b: "\<And>i. (i \<in> set (pending_index state)) = is_pending state i"
    using assms by (simp add: store_inv_def)
  have c: "\<And>ns k. state (ns, k) \<noteq> None \<Longrightarrow>
            ns = NAMESPACE \<and> (k = ''_pending_index'' \<or> k \<in> set ids)"
    using assms by (simp add: store_inv_def)
  have d: "''_pending_index'' \<notin> set ids" using assms by (simp add: store_inv_def)
  have ne: "take 8 uuid \<noteq> ''_pending_index''" by (rule take8_not_index_key)
  have np: "''_pending_index'' \<notin> set (pending_index state)"
    using b index_key_not_pending [OF ok] by simp
  let ?r = "\<lparr>req_id = take 8 uuid, req_tool = arg_tool req,
                         req_input = arg_input req, session = arg_session req,
                         requester = arg_requester req, status = Pending, createdAt = now\<rparr>"
  let ?s = "state((NAMESPACE, take 8 uuid) \<mapsto> JApproval ?r,
            (NAMESPACE, ''_pending_index'') \<mapsto> JIndex (pending_index state @ [take 8 uuid]))"
  have s: "snd (requestApproval state req uuid now) = ?s"
    by (simp add: requestApproval_ok [OF ok])
  have 1: "index_ok ?s" by (rule upd_index_ok)
  have 2: "(i \<in> set (pending_index ?s)) = is_pending ?s i" for i
    using ne np b [of i] by (auto simp: upd_pending_index upd_is_pending [OF ne])
  have 3: "ns = NAMESPACE \<and> (k = ''_pending_index'' \<or> k \<in> set (ids @ [take 8 uuid]))"
    if "?s (ns, k) \<noteq> None" for ns k
    using upd_dom [OF that] c [of ns k] by auto
  have 4: "''_pending_index'' \<notin> set (ids @ [take 8 uuid])"
    using d ne by auto
  show ?thesis
    unfolding s store_inv_def using 1 2 3 4 by blast
qed

lemma inv_decide:
  assumes "store_inv state ids"
  shows "store_inv (snd (decide state i d)) ids"
proof (cases "\<exists>r. get state i = Some (JApproval r) \<and> status r = Pending")
  case False
  then have "decide state i d = (Inr (), state)"
    by (intro decide_noop) auto
  then show ?thesis using assms by simp
next
  case True
  then obtain r where r: "get state i = Some (JApproval r)" "status r = Pending" by blast
  have ok: "index_ok state" using assms by (simp add: store_inv_def)
  have b: "\<And>j. (j \<in> set (pending_index state)) = is_pending state j"
    using assms by (simp add: store_inv_def)
  have c: "\<And>ns k. state (ns, k) \<noteq> None \<Longrightarrow>
            ns = NAMESPACE \<and> (k = ''_pending_index'' \<or> k \<in> set ids)"
    using assms by (simp add: store_inv_def)
  have d: "''_pending_index'' \<notin> set ids" using assms by (simp add: store_inv_def)
  have ne: "i \<noteq> ''_pending_index''" using ok r(1) by (rule index_ok_not_approval)
  have np: "''_pending_index'' \<notin> set (pending_index state)"
    using b index_key_not_pending [OF ok] by simp
  have st: "status_of d \<noteq> Pending" by (cases d) simp_all
  have ik: "state (NAMESPACE, i) \<noteq> None" using r(1) by (simp add: get_def getJSON_def)
  let ?s = "state((NAMESPACE, i) \<mapsto> JApproval (r\<lparr>status := status_of d\<rparr>),
            (NAMESPACE, ''_pending_index'') \<mapsto>
              JIndex (filter (\<lambda>j. j \<noteq> i) (pending_index state)))"
  have s: "snd (decide state i d) = ?s"
    by (simp add: decide_pending [OF r ok])
  have 1: "index_ok ?s" by (rule upd_index_ok)
  have 2: "(j \<in> set (pending_index ?s)) = is_pending ?s j" for j
    using ne np st b [of j] by (auto simp: upd_pending_index upd_is_pending [OF ne])
  have 3: "ns = NAMESPACE \<and> (k = ''_pending_index'' \<or> k \<in> set ids)"
    if "?s (ns, k) \<noteq> None" for ns k
    using upd_dom [OF that] c [of ns k] c [OF ik] ne by auto
  show ?thesis
    unfolding s store_inv_def using 1 2 3 d by blast
qed

lemma inv_expire:
  assumes "store_inv state ids"
  shows "store_inv (snd (expireOlderThan state m now)) ids"
proof -
  have ok: "index_ok state" using assms by (simp add: store_inv_def)
  have b: "\<And>i. (i \<in> set (pending_index state)) = is_pending state i"
    using assms by (simp add: store_inv_def)
  let ?s = "snd (expireOlderThan state m now)"
  have 1: "index_ok ?s" using ok by (rule expire_index_key)
  have 2: "(i \<in> set (pending_index ?s)) = is_pending ?s i" for i
  proof (cases "i = ''_pending_index''")
    case True
    then show ?thesis
      using index_key_not_pending [OF 1] index_key_not_pending [OF ok] b
      by (simp add: expire_pending_index [OF ok])
  next
    case False
    have g: "get ?s i = (if i \<in> set (pending_index state) \<and> expirable state m now i
              then mark_expired (get state i) else get state i)"
      using ok False by (rule expire_get)
    show ?thesis
    proof (cases "expirable state m now i")
      case True
      then have "is_pending state i" by (rule expirable_is_pending)
      then have "\<not> is_pending ?s i"
        using True g b by (intro is_pending_mark_expired [of state i m now]) simp_all
      then show ?thesis using True by (simp add: expire_pending_index [OF ok])
    next
      case False
      then have "is_pending ?s i = is_pending state i"
        using g by (simp add: is_pending_def)
      then show ?thesis using False b by (simp add: expire_pending_index [OF ok])
    qed
  qed
  have 3: "ns = NAMESPACE \<and> (k = ''_pending_index'' \<or> k \<in> set ids)" if "?s (ns, k) \<noteq> None" for ns k
    using expire_dom [OF ok that] assms by (auto simp: store_inv_def)
  show ?thesis
    using 1 2 3 assms unfolding store_inv_def by blast
qed

lemma inv_step:
  assumes "store_inv state ids"
  shows "store_inv (fst (step (state, ids) x)) (snd (step (state, ids) x))"
proof (cases x)
  case (Request req uuid now)
  have ok: "index_ok state" using assms by (simp add: store_inv_def)
  show ?thesis
    using inv_request [OF assms, of req uuid now]
    by (simp add: Request requestApproval_ok [OF ok])
next
  case (Decide i d)
  then show ?thesis using inv_decide [OF assms, of i d] by simp
next
  case (ExpireOlderThan m now)
  then show ?thesis using inv_expire [OF assms, of m now] by simp
qed

lemma inv_run: "store_inv (store_after ops) (returned_ids ops)"
proof (induction ops rule: rev_induct)
  case Nil
  show ?case by (simp add: store_after_def returned_ids_def run_def inv_empty)
next
  case (snoc x ops)
  then show ?case
    using inv_step [of "store_after ops" "returned_ids ops" x]
    by (simp add: store_after_def returned_ids_def run_def)
qed

lemma index_ok_run: "index_ok (store_after ops)"
  using inv_run [of ops] by (simp add: store_inv_def)

lemma run_snoc:
  "store_after (ops @ [x]) = fst (step (store_after ops, returned_ids ops) x)"
  "returned_ids (ops @ [x]) = snd (step (store_after ops, returned_ids ops) x)"
  by (simp_all add: store_after_def returned_ids_def run_def)

lemma run_Nil: "store_after [] = Map.empty" "returned_ids [] = []"
  by (simp_all add: store_after_def returned_ids_def run_def)

lemma set_listPending:
  assumes "index_ok state"
  shows "\<exists>rs. listPending state = Inr rs
           \<and> set rs = {r. \<exists>j \<in> set (pending_index state).
                          get state j = Some (JApproval r) \<and> status r = Pending}"
  using assms
  by (auto simp: listPending_def read_index_ok split: option.splits json.splits)

text \<open>
  C6: \<open>decide\<close> changes nothing, in the whole store, when no record is stored under the
  id or the stored record is not pending. When the record is pending (and the value
  under the index key is an array or absent, as it is in every store that the
  operations build), \<open>decide\<close> stores the record with the decision as its status,
  \<^verbatim>\<open>"allow"\<close> for an allow and \<^verbatim>\<open>"deny"\<close> for a deny, and the index without the id, and
  leaves every other key as it was.
\<close>

theorem decide_effect:
  "((\<forall>r. get state i = Some (JApproval r) \<longrightarrow> status r \<noteq> Pending)
      \<longrightarrow> decide state i d = (Inr (), state))
   \<and> (get state i = Some (JApproval r) \<and> status r = Pending \<and> index_ok state
      \<longrightarrow> decide state i DecideAllow =
            (Inr (),
             state((NAMESPACE, i) \<mapsto> JApproval (r\<lparr>status := StatusAllow\<rparr>),
                   (NAMESPACE, ''_pending_index'') \<mapsto>
                     JIndex (filter (\<lambda>j. j \<noteq> i) (pending_index state))))
          \<and> decide state i DecideDeny =
            (Inr (),
             state((NAMESPACE, i) \<mapsto> JApproval (r\<lparr>status := StatusDeny\<rparr>),
                   (NAMESPACE, ''_pending_index'') \<mapsto>
                     JIndex (filter (\<lambda>j. j \<noteq> i) (pending_index state))))
          \<and> get (snd (decide state i d)) i
              = Some (JApproval (r\<lparr>status := (case d of DecideAllow \<Rightarrow> StatusAllow
                                                  | DecideDeny \<Rightarrow> StatusDeny)\<rparr>))
          \<and> pending_index (snd (decide state i d)) = filter (\<lambda>j. j \<noteq> i) (pending_index state)
          \<and> i \<notin> set (pending_index (snd (decide state i d)))
          \<and> (\<forall>j. j \<noteq> i \<and> j \<noteq> ''_pending_index''
                \<longrightarrow> get (snd (decide state i d)) j = get state j)
          \<and> (\<forall>ns k. ns \<noteq> NAMESPACE \<longrightarrow> snd (decide state i d) (ns, k) = state (ns, k)))"
proof (intro conjI impI)
  assume "\<forall>r. get state i = Some (JApproval r) \<longrightarrow> status r \<noteq> Pending"
  then show "decide state i d = (Inr (), state)" by (rule decide_noop)
next
  assume h: "get state i = Some (JApproval r) \<and> status r = Pending \<and> index_ok state"
  then have r: "get state i = Some (JApproval r)" "status r = Pending" and ok: "index_ok state"
    by simp_all
  have ne: "i \<noteq> ''_pending_index''" using ok r(1) by (rule index_ok_not_approval)
  note e = decide_pending [OF r ok, of d]
  show "decide state i DecideAllow =
            (Inr (),
             state((NAMESPACE, i) \<mapsto> JApproval (r\<lparr>status := StatusAllow\<rparr>),
                   (NAMESPACE, ''_pending_index'') \<mapsto>
                     JIndex (filter (\<lambda>j. j \<noteq> i) (pending_index state))))"
    using decide_pending [OF r ok, of DecideAllow] by simp
  show "decide state i DecideDeny =
            (Inr (),
             state((NAMESPACE, i) \<mapsto> JApproval (r\<lparr>status := StatusDeny\<rparr>),
                   (NAMESPACE, ''_pending_index'') \<mapsto>
                     JIndex (filter (\<lambda>j. j \<noteq> i) (pending_index state))))"
    using decide_pending [OF r ok, of DecideDeny] by simp
  show "get (snd (decide state i d)) i
          = Some (JApproval (r\<lparr>status := (case d of DecideAllow \<Rightarrow> StatusAllow
                                              | DecideDeny \<Rightarrow> StatusDeny)\<rparr>))"
  proof -
    have "status_of d = (case d of DecideAllow \<Rightarrow> StatusAllow | DecideDeny \<Rightarrow> StatusDeny)"
      by (cases d) simp_all
    then show ?thesis
      using ne by (simp add: e get_def getJSON_def)
  qed
  show p: "pending_index (snd (decide state i d)) = filter (\<lambda>j. j \<noteq> i) (pending_index state)"
    by (simp add: e upd_pending_index)
  show "i \<notin> set (pending_index (snd (decide state i d)))"
    by (simp add: p)
  show "\<forall>j. j \<noteq> i \<and> j \<noteq> ''_pending_index''
                \<longrightarrow> get (snd (decide state i d)) j = get state j"
    by (simp add: e get_def getJSON_def)
  show "\<forall>ns k. ns \<noteq> NAMESPACE \<longrightarrow> snd (decide state i d) (ns, k) = state (ns, k)"
    by (simp add: e)
qed

theorem decide_effect_witness:
  "get (snd (decide
     (Map.empty((NAMESPACE, ''deadbeef'') \<mapsto>
        JApproval \<lparr>req_id = ''deadbeef'', req_tool = ''A'', req_input = ''1'', session = ''s1'',
                   requester = ''x'', status = Pending, createdAt = 1000\<rparr>,
      (NAMESPACE, ''_pending_index'') \<mapsto> JIndex [''deadbeef'']))
     ''deadbeef'' DecideAllow)) ''deadbeef''
   = Some (JApproval \<lparr>req_id = ''deadbeef'', req_tool = ''A'', req_input = ''1'',
                       session = ''s1'', requester = ''x'', status = StatusAllow,
                       createdAt = 1000\<rparr>)
   \<and> get (snd (decide
     (Map.empty((NAMESPACE, ''deadbeef'') \<mapsto>
        JApproval \<lparr>req_id = ''deadbeef'', req_tool = ''A'', req_input = ''1'', session = ''s1'',
                   requester = ''x'', status = Pending, createdAt = 1000\<rparr>,
      (NAMESPACE, ''_pending_index'') \<mapsto> JIndex [''deadbeef'']))
     ''deadbeef'' DecideDeny)) ''deadbeef''
   = Some (JApproval \<lparr>req_id = ''deadbeef'', req_tool = ''A'', req_input = ''1'',
                       session = ''s1'', requester = ''x'', status = StatusDeny,
                       createdAt = 1000\<rparr>)
   \<and> pending_index (snd (decide
     (Map.empty((NAMESPACE, ''deadbeef'') \<mapsto>
        JApproval \<lparr>req_id = ''deadbeef'', req_tool = ''A'', req_input = ''1'', session = ''s1'',
                   requester = ''x'', status = Pending, createdAt = 1000\<rparr>,
      (NAMESPACE, ''_pending_index'') \<mapsto> JIndex [''deadbeef'']))
     ''deadbeef'' DecideAllow)) = []
   \<and> decide
     (Map.empty((NAMESPACE, ''deadbeef'') \<mapsto>
        JApproval \<lparr>req_id = ''deadbeef'', req_tool = ''A'', req_input = ''1'', session = ''s1'',
                   requester = ''x'', status = Expired, createdAt = 1000\<rparr>,
      (NAMESPACE, ''_pending_index'') \<mapsto> JIndex []))
     ''deadbeef'' DecideAllow
   = (Inr (),
      Map.empty((NAMESPACE, ''deadbeef'') \<mapsto>
        JApproval \<lparr>req_id = ''deadbeef'', req_tool = ''A'', req_input = ''1'', session = ''s1'',
                   requester = ''x'', status = Expired, createdAt = 1000\<rparr>,
      (NAMESPACE, ''_pending_index'') \<mapsto> JIndex []))"
proof -
  let ?R = "\<lparr>req_id = ''deadbeef'', req_tool = ''A'', req_input = ''1'', session = ''s1'',
                   requester = ''x'', status = Pending, createdAt = 1000\<rparr>"
  let ?S = "Map.empty((NAMESPACE, ''deadbeef'') \<mapsto> JApproval ?R,
      (NAMESPACE, ''_pending_index'') \<mapsto> JIndex [''deadbeef''])"
  let ?S' = "Map.empty((NAMESPACE, ''deadbeef'') \<mapsto> JApproval (?R\<lparr>status := Expired\<rparr>),
      (NAMESPACE, ''_pending_index'') \<mapsto> JIndex [])"
  have h1: "get ?S ''deadbeef'' = Some (JApproval ?R) \<and> status ?R = Pending \<and> index_ok ?S"
    by (simp add: get_def getJSON_def index_ok_def)
  have p: "pending_index ?S = [''deadbeef'']"
    by (simp add: pending_index_def getJSON_def)
  from h1 decide_effect [where state = ?S and i = "''deadbeef''" and r = ?R and d = DecideAllow]
  have "get (snd (decide ?S ''deadbeef'' DecideAllow)) ''deadbeef''
          = Some (JApproval (?R\<lparr>status := (case DecideAllow of DecideAllow \<Rightarrow> StatusAllow
                                                | DecideDeny \<Rightarrow> StatusDeny)\<rparr>))
        \<and> pending_index (snd (decide ?S ''deadbeef'' DecideAllow))
          = filter (\<lambda>j. j \<noteq> ''deadbeef'') (pending_index ?S)"
    by blast
  then have a: "get (snd (decide ?S ''deadbeef'' DecideAllow)) ''deadbeef''
          = Some (JApproval (?R\<lparr>status := StatusAllow\<rparr>))
        \<and> pending_index (snd (decide ?S ''deadbeef'' DecideAllow)) = []"
    by (simp add: p)
  from h1 decide_effect [where state = ?S and i = "''deadbeef''" and r = ?R and d = DecideDeny]
  have "get (snd (decide ?S ''deadbeef'' DecideDeny)) ''deadbeef''
          = Some (JApproval (?R\<lparr>status := (case DecideDeny of DecideAllow \<Rightarrow> StatusAllow
                                                | DecideDeny \<Rightarrow> StatusDeny)\<rparr>))"
    by blast
  then have c: "get (snd (decide ?S ''deadbeef'' DecideDeny)) ''deadbeef''
          = Some (JApproval (?R\<lparr>status := StatusDeny\<rparr>))"
    by simp
  have h2: "\<forall>r. get ?S' ''deadbeef'' = Some (JApproval r) \<longrightarrow> status r \<noteq> Pending"
    by (simp add: get_def getJSON_def)
  from h2 decide_effect [where state = ?S' and i = "''deadbeef''" and d = DecideAllow]
  have b: "decide ?S' ''deadbeef'' DecideAllow = (Inr (), ?S')"
    by blast
  from a b c show ?thesis by simp
qed

lemma expire_effect_parts:
  "(index_ok state \<longrightarrow>
      fst (expireOlderThan state m now) = Inr ()
      \<and> (\<forall>i. i \<in> set (pending_index state) \<and> expirable state m now i \<longrightarrow>
            (\<exists>r. get state i = Some (JApproval r)
                  \<and> get (snd (expireOlderThan state m now)) i
                      = Some (JApproval (r\<lparr>status := Expired\<rparr>)))
            \<and> i \<notin> set (pending_index (snd (expireOlderThan state m now))))
      \<and> (\<forall>i. i \<noteq> ''_pending_index''
               \<and> \<not> (i \<in> set (pending_index state) \<and> expirable state m now i) \<longrightarrow>
            get (snd (expireOlderThan state m now)) i = get state i)
      \<and> pending_index (snd (expireOlderThan state m now))
          = filter (\<lambda>i. \<not> expirable state m now i) (pending_index state)
      \<and> (\<forall>ns k. ns \<noteq> NAMESPACE \<longrightarrow> snd (expireOlderThan state m now) (ns, k) = state (ns, k)))
   \<and> ((\<forall>i r. get (store_after ops) i = Some (JApproval r) \<and> status r = Pending
              \<longrightarrow> createdAt r \<le> now) \<longrightarrow>
        (\<forall>i. is_pending (store_after ops) i \<longrightarrow>
           (\<exists>r. get (snd (expireOlderThan (store_after ops) 0 now)) i = Some (JApproval r)
                 \<and> status r = Expired))
        \<and> (\<forall>i. \<not> is_pending (snd (expireOlderThan (store_after ops) 0 now)) i)
        \<and> pending_index (snd (expireOlderThan (store_after ops) 0 now)) = [])"
proof (intro conjI impI)
  assume ok: "index_ok state"
  let ?s = "snd (expireOlderThan state m now)"
  show "fst (expireOlderThan state m now) = Inr ()"
    by (simp add: expireOlderThan_ok [OF ok])
  show p: "pending_index ?s = filter (\<lambda>i. \<not> expirable state m now i) (pending_index state)"
    using ok by (rule expire_pending_index)
  show "\<forall>i. i \<in> set (pending_index state) \<and> expirable state m now i \<longrightarrow>
            (\<exists>r. get state i = Some (JApproval r)
                  \<and> get ?s i = Some (JApproval (r\<lparr>status := Expired\<rparr>)))
            \<and> i \<notin> set (pending_index ?s)"
  proof (intro allI impI)
    fix i
    assume h: "i \<in> set (pending_index state) \<and> expirable state m now i"
    then obtain r where r: "get state i = Some (JApproval r)"
      by (auto simp: expirable_def split: option.splits json.splits)
    then have ne: "i \<noteq> ''_pending_index''" using ok by (intro index_ok_not_approval)
    have "get ?s i = Some (JApproval (r\<lparr>status := Expired\<rparr>))"
      using h r by (simp add: expire_get [OF ok ne])
    with r h show "(\<exists>r. get state i = Some (JApproval r)
                  \<and> get ?s i = Some (JApproval (r\<lparr>status := Expired\<rparr>)))
            \<and> i \<notin> set (pending_index ?s)"
      by (simp add: p)
  qed
  show "\<forall>i. i \<noteq> ''_pending_index''
               \<and> \<not> (i \<in> set (pending_index state) \<and> expirable state m now i) \<longrightarrow>
            get ?s i = get state i"
    using ok by (auto simp: expire_get)
  show "\<forall>ns k. ns \<noteq> NAMESPACE \<longrightarrow> ?s (ns, k) = state (ns, k)"
    using ok by (simp add: expire_other)
next
  let ?t = "store_after ops"
  let ?s = "snd (expireOlderThan ?t 0 now)"
  assume c: "\<forall>i r. get ?t i = Some (JApproval r) \<and> status r = Pending \<longrightarrow> createdAt r \<le> now"
  have ok: "index_ok ?t" by (rule index_ok_run)
  have b: "\<And>i. (i \<in> set (pending_index ?t)) = is_pending ?t i"
    using inv_run [of ops] by (simp add: store_inv_def)
  have e: "expirable ?t 0 now i = is_pending ?t i" for i
    using c by (auto simp: expirable_def is_pending_def split: option.splits json.splits)
  have inv: "store_inv ?s (returned_ids ops)"
    using inv_run [of ops] by (rule inv_expire)
  show p: "pending_index ?s = []"
    using b by (simp add: expire_pending_index [OF ok] e)
  show "\<forall>i. \<not> is_pending ?s i"
    using inv p by (simp add: store_inv_def)
  show "\<forall>i. is_pending ?t i \<longrightarrow> (\<exists>r. get ?s i = Some (JApproval r) \<and> status r = Expired)"
  proof (intro allI impI)
    fix i assume ip: "is_pending ?t i"
    then obtain r where r: "get ?t i = Some (JApproval r)"
      by (auto simp: is_pending_def split: option.splits json.splits)
    then have ne: "i \<noteq> ''_pending_index''" using ok by (intro index_ok_not_approval)
    have "get ?s i = Some (JApproval (r\<lparr>status := Expired\<rparr>))"
      using ip r b [of i] by (simp add: expire_get [OF ok ne] e)
    then show "\<exists>r. get ?s i = Some (JApproval r) \<and> status r = Expired" by simp
  qed
qed

lemma expire_zero_old_enough:
  "\<forall>i r. get (store_after ops) i = Some (JApproval r) \<and> status r = Pending
              \<and> createdAt r \<le> now \<longrightarrow>
          get (snd (expireOlderThan (store_after ops) 0 now)) i
            = Some (JApproval (r\<lparr>status := Expired\<rparr>))
          \<and> i \<notin> set (pending_index (snd (expireOlderThan (store_after ops) 0 now)))"
proof (intro allI impI)
  let ?t = "store_after ops"
  let ?s = "snd (expireOlderThan ?t 0 now)"
  fix i r
  assume h: "get ?t i = Some (JApproval r) \<and> status r = Pending \<and> createdAt r \<le> now"
  have ok: "index_ok ?t" by (rule index_ok_run)
  have b: "(i \<in> set (pending_index ?t)) = is_pending ?t i"
    using inv_run [of ops] by (simp add: store_inv_def)
  have g: "get ?t i = Some (JApproval r)" using h by simp
  have ne: "i \<noteq> ''_pending_index''" using ok g by (rule index_ok_not_approval)
  have ex: "expirable ?t 0 now i" using h by (simp add: expirable_def)
  have mem: "i \<in> set (pending_index ?t)" using h b by (simp add: is_pending_def)
  show "get ?s i = Some (JApproval (r\<lparr>status := Expired\<rparr>)) \<and> i \<notin> set (pending_index ?s)"
    using g ex mem by (simp add: expire_get [OF ok ne] expire_pending_index [OF ok])
qed

lemma expire_zero_too_new:
  "\<forall>i r. get (store_after ops) i = Some (JApproval r) \<and> status r = Pending
              \<and> now < createdAt r \<longrightarrow>
          get (snd (expireOlderThan (store_after ops) 0 now)) i = Some (JApproval r)
          \<and> i \<in> set (pending_index (snd (expireOlderThan (store_after ops) 0 now)))"
proof (intro allI impI)
  let ?t = "store_after ops"
  let ?s = "snd (expireOlderThan ?t 0 now)"
  fix i r
  assume h: "get ?t i = Some (JApproval r) \<and> status r = Pending \<and> now < createdAt r"
  have ok: "index_ok ?t" by (rule index_ok_run)
  have b: "(i \<in> set (pending_index ?t)) = is_pending ?t i"
    using inv_run [of ops] by (simp add: store_inv_def)
  have g: "get ?t i = Some (JApproval r)" using h by simp
  have ne: "i \<noteq> ''_pending_index''" using ok g by (rule index_ok_not_approval)
  have ex: "\<not> expirable ?t 0 now i" using h by (simp add: expirable_def)
  have mem: "i \<in> set (pending_index ?t)" using h b by (simp add: is_pending_def)
  show "get ?s i = Some (JApproval r) \<and> i \<in> set (pending_index ?s)"
    using g ex mem by (simp add: expire_get [OF ok ne] expire_pending_index [OF ok])
qed

text \<open>
  C8, as the code has it: \<open>expireOlderThan\<close> (on a store whose index key holds an array or
  nothing) sets to expired, and removes from the pending index, exactly the ids of the
  index whose record exists, is pending and has \<open>now - createdAt \<ge> maxAgeMs\<close>; every
  other record, the rest of the index and the other namespaces are unchanged. After any
  sequence of operations, \<open>expireOlderThan 0\<close> expires and removes from the index every
  pending record created no later than \<open>now\<close>, and leaves a pending record created later
  than \<open>now\<close> pending and in the index; when no pending record was created later than
  \<open>now\<close>, it leaves every pending record expired, no record pending, and the pending
  index empty.
\<close>

theorem expireOlderThan_effect:
  "(index_ok state \<longrightarrow>
      fst (expireOlderThan state m now) = Inr ()
      \<and> (\<forall>i. i \<in> set (pending_index state) \<and> expirable state m now i \<longrightarrow>
            (\<exists>r. get state i = Some (JApproval r)
                  \<and> get (snd (expireOlderThan state m now)) i
                      = Some (JApproval (r\<lparr>status := Expired\<rparr>)))
            \<and> i \<notin> set (pending_index (snd (expireOlderThan state m now))))
      \<and> (\<forall>i. i \<noteq> ''_pending_index''
               \<and> \<not> (i \<in> set (pending_index state) \<and> expirable state m now i) \<longrightarrow>
            get (snd (expireOlderThan state m now)) i = get state i)
      \<and> pending_index (snd (expireOlderThan state m now))
          = filter (\<lambda>i. \<not> expirable state m now i) (pending_index state)
      \<and> (\<forall>ns k. ns \<noteq> NAMESPACE \<longrightarrow> snd (expireOlderThan state m now) (ns, k) = state (ns, k)))
   \<and> ((\<forall>i r. get (store_after ops) i = Some (JApproval r) \<and> status r = Pending
              \<longrightarrow> createdAt r \<le> now) \<longrightarrow>
        (\<forall>i. is_pending (store_after ops) i \<longrightarrow>
           (\<exists>r. get (snd (expireOlderThan (store_after ops) 0 now)) i = Some (JApproval r)
                 \<and> status r = Expired))
        \<and> (\<forall>i. \<not> is_pending (snd (expireOlderThan (store_after ops) 0 now)) i)
        \<and> pending_index (snd (expireOlderThan (store_after ops) 0 now)) = [])
   \<and> (\<forall>i r. get (store_after ops) i = Some (JApproval r) \<and> status r = Pending
              \<and> createdAt r \<le> now \<longrightarrow>
          get (snd (expireOlderThan (store_after ops) 0 now)) i
            = Some (JApproval (r\<lparr>status := Expired\<rparr>))
          \<and> i \<notin> set (pending_index (snd (expireOlderThan (store_after ops) 0 now))))
   \<and> (\<forall>i r. get (store_after ops) i = Some (JApproval r) \<and> status r = Pending
              \<and> now < createdAt r \<longrightarrow>
          get (snd (expireOlderThan (store_after ops) 0 now)) i = Some (JApproval r)
          \<and> i \<in> set (pending_index (snd (expireOlderThan (store_after ops) 0 now))))"
proof -
  note p = expire_effect_parts [of state m now ops]
  show ?thesis
    by (rule conjI [OF conjunct1 [OF p]
          conjI [OF conjunct2 [OF p] conjI [OF expire_zero_old_enough expire_zero_too_new]]])
qed

theorem expireOlderThan_effect_witness:
  "pending_index
     (snd (expireOlderThan
        (Map.empty((NAMESPACE, ''deadbeef'') \<mapsto>
           JApproval \<lparr>req_id = ''deadbeef'', req_tool = ''A'', req_input = ''1'', session = ''s1'',
                      requester = ''x'', status = Pending, createdAt = 1000\<rparr>,
         (NAMESPACE, ''cafef00d'') \<mapsto>
           JApproval \<lparr>req_id = ''cafef00d'', req_tool = ''B'', req_input = ''2'', session = ''s1'',
                      requester = ''x'', status = Pending, createdAt = 5000\<rparr>,
         (NAMESPACE, ''_pending_index'') \<mapsto> JIndex [''deadbeef'', ''cafef00d'']))
        2000 6000))
     = [''cafef00d'']
   \<and> pending_index
       (snd (expireOlderThan
          (store_after [Request \<lparr>arg_tool = ''A'', arg_input = ''1'', arg_session = ''s1'',
                                 arg_requester = ''x''\<rparr> ''deadbeef-1111-4111-8111-111111111111'' 1000])
          0 6000))
     = []
   \<and> get
       (snd (expireOlderThan
          (store_after [Request \<lparr>arg_tool = ''A'', arg_input = ''1'', arg_session = ''s1'',
                                 arg_requester = ''x''\<rparr> ''deadbeef-1111-4111-8111-111111111111'' 1000])
          0 6000)) ''deadbeef''
     = Some (JApproval \<lparr>req_id = ''deadbeef'', req_tool = ''A'', req_input = ''1'',
                         session = ''s1'', requester = ''x'', status = Expired,
                         createdAt = 1000\<rparr>)"
proof -
  let ?A = "\<lparr>req_id = ''deadbeef'', req_tool = ''A'', req_input = ''1'', session = ''s1'',
                      requester = ''x'', status = Pending, createdAt = 1000\<rparr>"
  let ?B = "\<lparr>req_id = ''cafef00d'', req_tool = ''B'', req_input = ''2'', session = ''s1'',
                      requester = ''x'', status = Pending, createdAt = 5000\<rparr>"
  let ?S = "Map.empty((NAMESPACE, ''deadbeef'') \<mapsto> JApproval ?A,
         (NAMESPACE, ''cafef00d'') \<mapsto> JApproval ?B,
         (NAMESPACE, ''_pending_index'') \<mapsto> JIndex [''deadbeef'', ''cafef00d''])"
  let ?ops = "[Request \<lparr>arg_tool = ''A'', arg_input = ''1'', arg_session = ''s1'',
                                 arg_requester = ''x''\<rparr> ''deadbeef-1111-4111-8111-111111111111'' 1000]"
  have ok: "index_ok ?S" by (simp add: index_ok_def getJSON_def)
  have p: "pending_index ?S = [''deadbeef'', ''cafef00d'']"
    by (simp add: pending_index_def getJSON_def)
  have e: "expirable ?S 2000 6000 ''deadbeef''" "\<not> expirable ?S 2000 6000 ''cafef00d''"
    by (simp_all add: expirable_def get_def getJSON_def)
  from ok expireOlderThan_effect [where state = ?S and m = 2000 and now = 6000]
  have "pending_index (snd (expireOlderThan ?S 2000 6000))
          = filter (\<lambda>i. \<not> expirable ?S 2000 6000 i) (pending_index ?S)"
    by blast
  then have a: "pending_index (snd (expireOlderThan ?S 2000 6000)) = [''cafef00d'']"
    using e by (simp add: p)
  have s: "store_after ?ops = Map.empty((NAMESPACE, ''deadbeef'') \<mapsto> JApproval ?A,
         (NAMESPACE, ''_pending_index'') \<mapsto> JIndex [''deadbeef''])"
    by (simp add: store_after_def run_def requestApproval_def setJSON_def getJSON_def Let_def)
  have c: "\<forall>i r. get (store_after ?ops) i = Some (JApproval r) \<and> status r = Pending
              \<longrightarrow> createdAt r \<le> 6000"
    unfolding s by (auto simp: get_def getJSON_def split: if_splits)
  from c expireOlderThan_effect [where now = 6000 and ops = ?ops]
  have b: "pending_index (snd (expireOlderThan (store_after ?ops) 0 6000)) = []"
    by blast
  have g: "get (store_after ?ops) ''deadbeef'' = Some (JApproval ?A) \<and> status ?A = Pending
             \<and> createdAt ?A \<le> 6000"
    unfolding s by (simp add: get_def getJSON_def)
  from g expireOlderThan_effect [where now = 6000 and ops = ?ops]
  have d: "get (snd (expireOlderThan (store_after ?ops) 0 6000)) ''deadbeef''
             = Some (JApproval (?A\<lparr>status := Expired\<rparr>))"
    by blast
  from a b d show ?thesis by simp
qed

text \<open>
  C8 as stated, that \<open>expireOlderThan 0\<close> expires every pending request, fails when the
  clock reads earlier than a request's creation: a request created at 5000 stays pending,
  and in the pending index, after \<open>expireOlderThan 0\<close> at 4000, since \<open>4000 - 5000 \<ge> 0\<close>
  is false.
\<close>

theorem expireOlderThan_zero_clock_back:
  "is_pending
     (store_after [Request \<lparr>arg_tool = ''A'', arg_input = ''1'', arg_session = ''s1'',
                             arg_requester = ''x''\<rparr> ''deadbeef-1111-4111-8111-111111111111'' 5000])
     ''deadbeef''
   \<and> is_pending
     (snd (expireOlderThan
        (store_after [Request \<lparr>arg_tool = ''A'', arg_input = ''1'', arg_session = ''s1'',
                                arg_requester = ''x''\<rparr> ''deadbeef-1111-4111-8111-111111111111'' 5000])
        0 4000))
     ''deadbeef''
   \<and> pending_index
     (snd (expireOlderThan
        (store_after [Request \<lparr>arg_tool = ''A'', arg_input = ''1'', arg_session = ''s1'',
                                arg_requester = ''x''\<rparr> ''deadbeef-1111-4111-8111-111111111111'' 5000])
        0 4000))
     = [''deadbeef'']"
  by (simp add: store_after_def run_def requestApproval_def expireOlderThan_def setJSON_def
      getJSON_def get_def is_pending_def pending_index_def Let_def)

lemma request_get:
  assumes "index_ok state" and "j \<noteq> ''_pending_index''"
  shows "get (snd (requestApproval state req uuid now)) j
     = (if j = take 8 uuid
        then Some (JApproval \<lparr>req_id = take 8 uuid, req_tool = arg_tool req,
                     req_input = arg_input req, session = arg_session req,
                     requester = arg_requester req, status = Pending, createdAt = now\<rparr>)
        else get state j)"
  using assms(2) by (simp add: requestApproval_ok [OF assms(1)] get_def getJSON_def)

lemma request_pending_index:
  assumes "index_ok state"
  shows "pending_index (snd (requestApproval state req uuid now))
           = pending_index state @ [take 8 uuid]"
  by (simp add: requestApproval_ok [OF assms] upd_pending_index)

lemma decide_pending_get:
  assumes "get state i = Some (JApproval r)" and "status r = Pending" and "index_ok state"
    and "j \<noteq> ''_pending_index''"
  shows "get (snd (decide state i d)) j
     = (if j = i then Some (JApproval (r\<lparr>status := status_of d\<rparr>)) else get state j)"
  using assms(4) by (simp add: decide_pending [OF assms(1-3)] get_def getJSON_def)

lemma decide_pending_index:
  assumes "get state i = Some (JApproval r)" and "status r = Pending" and "index_ok state"
  shows "pending_index (snd (decide state i d)) = filter (\<lambda>j. j \<noteq> i) (pending_index state)"
  by (simp add: decide_pending [OF assms] upd_pending_index)

lemma store_after_request:
  "store_after (ops @ [Request req uuid now]) = snd (requestApproval (store_after ops) req uuid now)"
  by (simp add: run_snoc requestApproval_ok [OF index_ok_run])

lemma store_after_decide:
  "store_after (ops @ [Decide i d]) = snd (decide (store_after ops) i d)"
  by (simp add: run_snoc)

lemma two_requests_one_decided:
  assumes "take 8 u1 \<noteq> take 8 u2"
  shows "listPending (store_after [Request a1 u1 t1, Request a2 u2 t2, Decide (take 8 u1) d])
      = Inr [\<lparr>req_id = take 8 u2, req_tool = arg_tool a2, req_input = arg_input a2,
               session = arg_session a2, requester = arg_requester a2, status = Pending,
               createdAt = t2\<rparr>]"
proof -
  let ?R1 = "\<lparr>req_id = take 8 u1, req_tool = arg_tool a1, req_input = arg_input a1,
               session = arg_session a1, requester = arg_requester a1, status = Pending,
               createdAt = t1\<rparr>"
  let ?R2 = "\<lparr>req_id = take 8 u2, req_tool = arg_tool a2, req_input = arg_input a2,
               session = arg_session a2, requester = arg_requester a2, status = Pending,
               createdAt = t2\<rparr>"
  let ?S1 = "store_after [Request a1 u1 t1]"
  let ?S2 = "store_after [Request a1 u1 t1, Request a2 u2 t2]"
  let ?S3 = "store_after [Request a1 u1 t1, Request a2 u2 t2, Decide (take 8 u1) d]"
  note ne = take8_not_index_key [of u1] take8_not_index_key [of u2]
  have e1: "?S1 = snd (requestApproval (store_after []) a1 u1 t1)"
    using store_after_request [of "[]" a1 u1 t1] by simp
  have e2: "?S2 = snd (requestApproval ?S1 a2 u2 t2)"
    using store_after_request [of "[Request a1 u1 t1]" a2 u2 t2] by simp
  have e3: "?S3 = snd (decide ?S2 (take 8 u1) d)"
    using store_after_decide [of "[Request a1 u1 t1, Request a2 u2 t2]" "take 8 u1" d] by simp
  have p0: "pending_index (store_after []) = []"
    by (simp add: run_Nil pending_index_def getJSON_def)
  have p1: "pending_index ?S1 = [take 8 u1]"
    unfolding e1 by (simp add: request_pending_index [OF index_ok_run] p0)
  have g1: "get ?S1 (take 8 u1) = Some (JApproval ?R1)"
    unfolding e1 by (simp add: request_get [OF index_ok_run ne(1)])
  have p2: "pending_index ?S2 = [take 8 u1, take 8 u2]"
    unfolding e2 by (simp add: request_pending_index [OF index_ok_run] p1)
  have g21: "get ?S2 (take 8 u1) = Some (JApproval ?R1)"
    unfolding e2 using assms by (simp add: request_get [OF index_ok_run ne(1)] g1)
  have g22: "get ?S2 (take 8 u2) = Some (JApproval ?R2)"
    unfolding e2 by (simp add: request_get [OF index_ok_run ne(2)])
  have p3: "pending_index ?S3 = [take 8 u2]"
    unfolding e3 using assms
    by (simp add: decide_pending_index [OF g21 _ index_ok_run] p2)
  have g3: "get ?S3 (take 8 u2) = Some (JApproval ?R2)"
    unfolding e3 using assms
    by (simp add: decide_pending_get [OF g21 _ index_ok_run ne(2)] g22)
  show ?thesis
    unfolding listPending_def read_index_ok [OF index_ok_run] p3
    by (simp add: g3)
qed

lemma two_requests_other_decided:
  assumes "take 8 u1 \<noteq> take 8 u2"
  shows "listPending (store_after [Request a1 u1 t1, Request a2 u2 t2, Decide (take 8 u2) d])
      = Inr [\<lparr>req_id = take 8 u1, req_tool = arg_tool a1, req_input = arg_input a1,
               session = arg_session a1, requester = arg_requester a1, status = Pending,
               createdAt = t1\<rparr>]"
proof -
  let ?R1 = "\<lparr>req_id = take 8 u1, req_tool = arg_tool a1, req_input = arg_input a1,
               session = arg_session a1, requester = arg_requester a1, status = Pending,
               createdAt = t1\<rparr>"
  let ?R2 = "\<lparr>req_id = take 8 u2, req_tool = arg_tool a2, req_input = arg_input a2,
               session = arg_session a2, requester = arg_requester a2, status = Pending,
               createdAt = t2\<rparr>"
  let ?S1 = "store_after [Request a1 u1 t1]"
  let ?S2 = "store_after [Request a1 u1 t1, Request a2 u2 t2]"
  let ?S3 = "store_after [Request a1 u1 t1, Request a2 u2 t2, Decide (take 8 u2) d]"
  note ne = take8_not_index_key [of u1] take8_not_index_key [of u2]
  have e1: "?S1 = snd (requestApproval (store_after []) a1 u1 t1)"
    using store_after_request [of "[]" a1 u1 t1] by simp
  have e2: "?S2 = snd (requestApproval ?S1 a2 u2 t2)"
    using store_after_request [of "[Request a1 u1 t1]" a2 u2 t2] by simp
  have e3: "?S3 = snd (decide ?S2 (take 8 u2) d)"
    using store_after_decide [of "[Request a1 u1 t1, Request a2 u2 t2]" "take 8 u2" d] by simp
  have p0: "pending_index (store_after []) = []"
    by (simp add: run_Nil pending_index_def getJSON_def)
  have p1: "pending_index ?S1 = [take 8 u1]"
    unfolding e1 by (simp add: request_pending_index [OF index_ok_run] p0)
  have g1: "get ?S1 (take 8 u1) = Some (JApproval ?R1)"
    unfolding e1 by (simp add: request_get [OF index_ok_run ne(1)])
  have p2: "pending_index ?S2 = [take 8 u1, take 8 u2]"
    unfolding e2 by (simp add: request_pending_index [OF index_ok_run] p1)
  have g21: "get ?S2 (take 8 u1) = Some (JApproval ?R1)"
    unfolding e2 using assms by (simp add: request_get [OF index_ok_run ne(1)] g1)
  have g22: "get ?S2 (take 8 u2) = Some (JApproval ?R2)"
    unfolding e2 by (simp add: request_get [OF index_ok_run ne(2)])
  have p3: "pending_index ?S3 = [take 8 u1]"
    unfolding e3 using assms
    by (simp add: decide_pending_index [OF g22 _ index_ok_run] p2)
  have g3: "get ?S3 (take 8 u1) = Some (JApproval ?R1)"
    unfolding e3 using assms
    by (simp add: decide_pending_get [OF g22 _ index_ok_run ne(1)] g21)
  show ?thesis
    unfolding listPending_def read_index_ok [OF index_ok_run] p3
    by (simp add: g3)
qed

text \<open>
  C5, as the code has it: after every sequence of \<open>requestApproval\<close>, \<open>decide\<close> and
  \<open>expireOlderThan\<close> from the empty store, an id is in the pending index exactly when the
  record stored under it is pending, and \<open>listPending\<close> returns exactly the stored
  records that are pending. In any store \<open>listPending\<close> returns the pending records of
  the ids in the index, dropping an id whose record is missing or not pending. After two
  requests whose ids differ and a decision on one of them, \<open>listPending\<close> returns the
  other request alone.
\<close>

theorem pending_index_iff_pending:
  "(i \<in> set (pending_index (store_after ops)) \<longleftrightarrow> is_pending (store_after ops) i)
   \<and> (\<exists>rs. listPending (store_after ops) = Inr rs
         \<and> set rs = {r. \<exists>j. get (store_after ops) j = Some (JApproval r) \<and> status r = Pending})
   \<and> (index_ok state \<longrightarrow>
        (\<exists>rs. listPending state = Inr rs
           \<and> set rs = {r. \<exists>j \<in> set (pending_index state).
                          get state j = Some (JApproval r) \<and> status r = Pending}))
   \<and> (take 8 u1 \<noteq> take 8 u2 \<longrightarrow>
        listPending (store_after [Request a1 u1 t1, Request a2 u2 t2, Decide (take 8 u1) d])
          = Inr [\<lparr>req_id = take 8 u2, req_tool = arg_tool a2, req_input = arg_input a2,
                   session = arg_session a2, requester = arg_requester a2, status = Pending,
                   createdAt = t2\<rparr>])
   \<and> (take 8 u1 \<noteq> take 8 u2 \<longrightarrow>
        listPending (store_after [Request a1 u1 t1, Request a2 u2 t2, Decide (take 8 u2) d])
          = Inr [\<lparr>req_id = take 8 u1, req_tool = arg_tool a1, req_input = arg_input a1,
                   session = arg_session a1, requester = arg_requester a1, status = Pending,
                   createdAt = t1\<rparr>])"
proof (intro conjI impI)
  assume "take 8 u1 \<noteq> take 8 u2"
  then show "listPending (store_after [Request a1 u1 t1, Request a2 u2 t2, Decide (take 8 u2) d])
          = Inr [\<lparr>req_id = take 8 u1, req_tool = arg_tool a1, req_input = arg_input a1,
                   session = arg_session a1, requester = arg_requester a1, status = Pending,
                   createdAt = t1\<rparr>]"
    by (rule two_requests_other_decided)
next
  assume "index_ok state"
  then show "\<exists>rs. listPending state = Inr rs
           \<and> set rs = {r. \<exists>j \<in> set (pending_index state).
                          get state j = Some (JApproval r) \<and> status r = Pending}"
    by (rule set_listPending)
next
  have b: "\<And>j. (j \<in> set (pending_index (store_after ops))) = is_pending (store_after ops) j"
    using inv_run [of ops] by (simp add: store_inv_def)
  show "(i \<in> set (pending_index (store_after ops))) = is_pending (store_after ops) i"
    by (rule b)
  obtain rs where rs: "listPending (store_after ops) = Inr rs"
    "set rs = {r. \<exists>j \<in> set (pending_index (store_after ops)).
                 get (store_after ops) j = Some (JApproval r) \<and> status r = Pending}"
    using set_listPending [OF index_ok_run, of ops] by blast
  have "set rs = {r. \<exists>j. get (store_after ops) j = Some (JApproval r) \<and> status r = Pending}"
    unfolding rs(2) using b by (auto simp: is_pending_def)
  with rs(1) show "\<exists>rs. listPending (store_after ops) = Inr rs
         \<and> set rs = {r. \<exists>j. get (store_after ops) j = Some (JApproval r) \<and> status r = Pending}"
    by blast
next
  assume "take 8 u1 \<noteq> take 8 u2"
  then show "listPending (store_after [Request a1 u1 t1, Request a2 u2 t2, Decide (take 8 u1) d])
          = Inr [\<lparr>req_id = take 8 u2, req_tool = arg_tool a2, req_input = arg_input a2,
                   session = arg_session a2, requester = arg_requester a2, status = Pending,
                   createdAt = t2\<rparr>]"
    by (rule two_requests_one_decided)
qed

theorem pending_index_iff_pending_witness:
  "listPending (store_after
      [Request \<lparr>arg_tool = ''A'', arg_input = ''1'', arg_session = ''s1'', arg_requester = ''x''\<rparr>
         ''deadbeef-1111-4111-8111-111111111111'' 1000,
       Request \<lparr>arg_tool = ''B'', arg_input = ''2'', arg_session = ''s1'', arg_requester = ''x''\<rparr>
         ''cafef00d-2222-4222-8222-222222222222'' 5000,
       Decide ''deadbeef'' DecideAllow])
    = Inr [\<lparr>req_id = ''cafef00d'', req_tool = ''B'', req_input = ''2'', session = ''s1'',
             requester = ''x'', status = Pending, createdAt = 5000\<rparr>]
   \<and> listPending (store_after
      [Request \<lparr>arg_tool = ''A'', arg_input = ''1'', arg_session = ''s1'', arg_requester = ''x''\<rparr>
         ''deadbeef-1111-4111-8111-111111111111'' 1000,
       Request \<lparr>arg_tool = ''B'', arg_input = ''2'', arg_session = ''s1'', arg_requester = ''x''\<rparr>
         ''cafef00d-2222-4222-8222-222222222222'' 5000,
       Decide ''cafef00d'' DecideDeny])
    = Inr [\<lparr>req_id = ''deadbeef'', req_tool = ''A'', req_input = ''1'', session = ''s1'',
             requester = ''x'', status = Pending, createdAt = 1000\<rparr>]"
proof -
  have h: "take 8 ''deadbeef-1111-4111-8111-111111111111''
             \<noteq> take 8 ''cafef00d-2222-4222-8222-222222222222''"
    by simp
  from h pending_index_iff_pending
    [where ?u1.0 = "''deadbeef-1111-4111-8111-111111111111''"
       and ?u2.0 = "''cafef00d-2222-4222-8222-222222222222''"
       and ?a1.0 = "\<lparr>arg_tool = ''A'', arg_input = ''1'', arg_session = ''s1'', arg_requester = ''x''\<rparr>"
       and ?a2.0 = "\<lparr>arg_tool = ''B'', arg_input = ''2'', arg_session = ''s1'', arg_requester = ''x''\<rparr>"
       and ?t1.0 = 1000 and ?t2.0 = 5000 and d = DecideAllow]
  have a: "listPending (store_after
      [Request \<lparr>arg_tool = ''A'', arg_input = ''1'', arg_session = ''s1'', arg_requester = ''x''\<rparr>
         ''deadbeef-1111-4111-8111-111111111111'' 1000,
       Request \<lparr>arg_tool = ''B'', arg_input = ''2'', arg_session = ''s1'', arg_requester = ''x''\<rparr>
         ''cafef00d-2222-4222-8222-222222222222'' 5000,
       Decide ''deadbeef'' DecideAllow])
    = Inr [\<lparr>req_id = ''cafef00d'', req_tool = ''B'', req_input = ''2'', session = ''s1'',
             requester = ''x'', status = Pending, createdAt = 5000\<rparr>]"
    by simp
  from h pending_index_iff_pending
    [where ?u1.0 = "''deadbeef-1111-4111-8111-111111111111''"
       and ?u2.0 = "''cafef00d-2222-4222-8222-222222222222''"
       and ?a1.0 = "\<lparr>arg_tool = ''A'', arg_input = ''1'', arg_session = ''s1'', arg_requester = ''x''\<rparr>"
       and ?a2.0 = "\<lparr>arg_tool = ''B'', arg_input = ''2'', arg_session = ''s1'', arg_requester = ''x''\<rparr>"
       and ?t1.0 = 1000 and ?t2.0 = 5000 and d = DecideDeny]
  have b: "listPending (store_after
      [Request \<lparr>arg_tool = ''A'', arg_input = ''1'', arg_session = ''s1'', arg_requester = ''x''\<rparr>
         ''deadbeef-1111-4111-8111-111111111111'' 1000,
       Request \<lparr>arg_tool = ''B'', arg_input = ''2'', arg_session = ''s1'', arg_requester = ''x''\<rparr>
         ''cafef00d-2222-4222-8222-222222222222'' 5000,
       Decide ''cafef00d'' DecideDeny])
    = Inr [\<lparr>req_id = ''deadbeef'', req_tool = ''A'', req_input = ''1'', session = ''s1'',
             requester = ''x'', status = Pending, createdAt = 1000\<rparr>]"
    by simp
  from a b show ?thesis by simp
qed

text \<open>
  C5 as stated, that after deciding one of two pending requests \<open>listPending\<close> returns
  the other one, fails when the two requests were given the same id: the second request
  has replaced the record of the first, the index holds the id twice, and after the
  decision \<open>listPending\<close> returns nothing.
\<close>

theorem listPending_after_id_reused:
  "returned_ids
     [Request \<lparr>arg_tool = ''A'', arg_input = ''1'', arg_session = ''s1'', arg_requester = ''x''\<rparr>
        ''deadbeef-1111-4111-8111-111111111111'' 1000,
      Request \<lparr>arg_tool = ''B'', arg_input = ''2'', arg_session = ''s1'', arg_requester = ''x''\<rparr>
        ''deadbeef-2222-4222-8222-222222222222'' 5000]
     = [''deadbeef'', ''deadbeef'']
   \<and> pending_index (store_after
     [Request \<lparr>arg_tool = ''A'', arg_input = ''1'', arg_session = ''s1'', arg_requester = ''x''\<rparr>
        ''deadbeef-1111-4111-8111-111111111111'' 1000,
      Request \<lparr>arg_tool = ''B'', arg_input = ''2'', arg_session = ''s1'', arg_requester = ''x''\<rparr>
        ''deadbeef-2222-4222-8222-222222222222'' 5000])
     = [''deadbeef'', ''deadbeef'']
   \<and> listPending (store_after
     [Request \<lparr>arg_tool = ''A'', arg_input = ''1'', arg_session = ''s1'', arg_requester = ''x''\<rparr>
        ''deadbeef-1111-4111-8111-111111111111'' 1000,
      Request \<lparr>arg_tool = ''B'', arg_input = ''2'', arg_session = ''s1'', arg_requester = ''x''\<rparr>
        ''deadbeef-2222-4222-8222-222222222222'' 5000,
      Decide ''deadbeef'' DecideAllow])
     = Inr []"
  by (simp add: returned_ids_def store_after_def run_def requestApproval_def decide_def
      removeFromPendingIndex_def listPending_def pending_index_def setJSON_def getJSON_def
      get_def Let_def)

text \<open>
  C7, as the code has it: after any sequence of operations, \<open>requestApproval\<close> returns the
  first eight characters of the drawn UUID; on return the record stored under that id is
  pending and carries the current timestamp, and the id has been appended to the pending
  index. When those eight characters differ from every id returned before, nothing was
  stored under the id and the id was not in the pending index.
\<close>

theorem requestApproval_effect:
  "fst (requestApproval (store_after ops) req uuid now) = Inr (take 8 uuid)
   \<and> get (snd (requestApproval (store_after ops) req uuid now)) (take 8 uuid)
       = Some (JApproval \<lparr>req_id = take 8 uuid, req_tool = arg_tool req,
                           req_input = arg_input req, session = arg_session req,
                           requester = arg_requester req, status = Pending,
                           createdAt = now\<rparr>)
   \<and> pending_index (snd (requestApproval (store_after ops) req uuid now))
       = pending_index (store_after ops) @ [take 8 uuid]
   \<and> returned_ids (ops @ [Request req uuid now]) = returned_ids ops @ [take 8 uuid]
   \<and> (take 8 uuid \<notin> set (returned_ids ops) \<longrightarrow>
        get (store_after ops) (take 8 uuid) = None
        \<and> take 8 uuid \<notin> set (pending_index (store_after ops)))"
proof (intro conjI impI)
  have ok: "index_ok (store_after ops)" by (rule index_ok_run)
  note e = requestApproval_ok [OF ok, of req uuid now]
  note ne = take8_not_index_key [of uuid]
  show "fst (requestApproval (store_after ops) req uuid now) = Inr (take 8 uuid)"
    by (simp add: e)
  show "get (snd (requestApproval (store_after ops) req uuid now)) (take 8 uuid)
       = Some (JApproval \<lparr>req_id = take 8 uuid, req_tool = arg_tool req,
                           req_input = arg_input req, session = arg_session req,
                           requester = arg_requester req, status = Pending,
                           createdAt = now\<rparr>)"
    using ne by (simp add: e get_def getJSON_def)
  show "pending_index (snd (requestApproval (store_after ops) req uuid now))
       = pending_index (store_after ops) @ [take 8 uuid]"
    by (simp add: e upd_pending_index)
  show "returned_ids (ops @ [Request req uuid now]) = returned_ids ops @ [take 8 uuid]"
    by (simp add: run_snoc e)
next
  assume f: "take 8 uuid \<notin> set (returned_ids ops)"
  have inv: "store_inv (store_after ops) (returned_ids ops)" by (rule inv_run)
  have ne: "take 8 uuid \<noteq> ''_pending_index''" by (rule take8_not_index_key)
  have "store_after ops (NAMESPACE, take 8 uuid) = None"
  proof (rule ccontr)
    assume "store_after ops (NAMESPACE, take 8 uuid) \<noteq> None"
    then have "take 8 uuid = ''_pending_index'' \<or> take 8 uuid \<in> set (returned_ids ops)"
      using inv unfolding store_inv_def by blast
    with ne f show False by simp
  qed
  then show g: "get (store_after ops) (take 8 uuid) = None"
    by (simp add: get_def getJSON_def)
  have "\<not> is_pending (store_after ops) (take 8 uuid)"
    using g by (simp add: is_pending_def)
  then show "take 8 uuid \<notin> set (pending_index (store_after ops))"
    using inv by (simp add: store_inv_def)
qed

theorem requestApproval_effect_witness:
  "get (store_after
      [Request \<lparr>arg_tool = ''A'', arg_input = ''1'', arg_session = ''s1'', arg_requester = ''x''\<rparr>
         ''deadbeef-1111-4111-8111-111111111111'' 1000])
     (take 8 ''cafef00d-2222-4222-8222-222222222222'') = None
   \<and> returned_ids
      ([Request \<lparr>arg_tool = ''A'', arg_input = ''1'', arg_session = ''s1'', arg_requester = ''x''\<rparr>
         ''deadbeef-1111-4111-8111-111111111111'' 1000]
       @ [Request \<lparr>arg_tool = ''B'', arg_input = ''2'', arg_session = ''s1'', arg_requester = ''x''\<rparr>
         ''cafef00d-2222-4222-8222-222222222222'' 5000])
     = [''deadbeef'', ''cafef00d'']"
proof -
  let ?ops = "[Request \<lparr>arg_tool = ''A'', arg_input = ''1'', arg_session = ''s1'', arg_requester = ''x''\<rparr>
         ''deadbeef-1111-4111-8111-111111111111'' 1000]"
  let ?B = "\<lparr>arg_tool = ''B'', arg_input = ''2'', arg_session = ''s1'', arg_requester = ''x''\<rparr>"
  have r: "returned_ids ?ops = [''deadbeef'']"
    by (simp add: returned_ids_def run_def requestApproval_def setJSON_def getJSON_def Let_def)
  have h: "take 8 ''cafef00d-2222-4222-8222-222222222222'' \<notin> set (returned_ids ?ops)"
    by (simp add: r)
  from h requestApproval_effect
    [where ops = ?ops and uuid = "''cafef00d-2222-4222-8222-222222222222''" and req = ?B
       and now = 5000]
  have "get (store_after ?ops) (take 8 ''cafef00d-2222-4222-8222-222222222222'') = None
     \<and> returned_ids (?ops @ [Request ?B ''cafef00d-2222-4222-8222-222222222222'' 5000])
        = returned_ids ?ops @ [take 8 ''cafef00d-2222-4222-8222-222222222222'']"
    by blast
  then show ?thesis by (simp add: r)
qed

text \<open>
  C7 as stated, that the returned id is distinct from every id returned before, fails:
  two draws that differ after their first eight characters give the same id twice, and
  the second request replaces the record of the first. The id is not checked against the
  store.
\<close>

theorem requestApproval_id_reused:
  "returned_ids
     [Request \<lparr>arg_tool = ''A'', arg_input = ''1'', arg_session = ''s1'', arg_requester = ''x''\<rparr>
        ''deadbeef-1111-4111-8111-111111111111'' 1000,
      Request \<lparr>arg_tool = ''B'', arg_input = ''2'', arg_session = ''s1'', arg_requester = ''x''\<rparr>
        ''deadbeef-2222-4222-8222-222222222222'' 5000]
     = [''deadbeef'', ''deadbeef'']
   \<and> ''deadbeef-1111-4111-8111-111111111111'' \<noteq> ''deadbeef-2222-4222-8222-222222222222''
   \<and> get (store_after
       [Request \<lparr>arg_tool = ''A'', arg_input = ''1'', arg_session = ''s1'', arg_requester = ''x''\<rparr>
          ''deadbeef-1111-4111-8111-111111111111'' 1000,
        Request \<lparr>arg_tool = ''B'', arg_input = ''2'', arg_session = ''s1'', arg_requester = ''x''\<rparr>
          ''deadbeef-2222-4222-8222-222222222222'' 5000]) ''deadbeef''
     = Some (JApproval \<lparr>req_id = ''deadbeef'', req_tool = ''B'', req_input = ''2'',
                         session = ''s1'', requester = ''x'', status = Pending,
                         createdAt = 5000\<rparr>)"
  by (simp add: returned_ids_def store_after_def run_def requestApproval_def setJSON_def
      getJSON_def get_def Let_def)

section \<open>Properties of the HTTP routes\<close>

text \<open>
  C9: the three approval endpoints of the specification are not among the routes that
  \<open>registerRoutes\<close> registers. No registered path begins with \<^verbatim>\<open>/api/approve\<close>, so a
  request that creates an approval, one that polls it and one that decides it are served
  by no route, while the health route is served.
\<close>

theorem approval_routes_not_registered:
  "find_route registerRoutes POST ''/api/approve'' = None
   \<and> find_route registerRoutes GET ''/api/approve/deadbeef'' = None
   \<and> find_route registerRoutes POST ''/api/approve/deadbeef/decide'' = None
   \<and> filter (\<lambda>(m, path, h). take 12 path = ''/api/approve'') registerRoutes = []
   \<and> map (\<lambda>(m, path, h). path) registerRoutes
       = [''/api/health'', ''/api/chat'', ''/api/stream'', ''/'']
   \<and> find_route registerRoutes GET ''/api/health'' = Some Health"
  by (simp add: registerRoutes_def)

end
